theory Spec2Isabelle
  imports Main
begin

section \<open>The abstract instruction container of \<^verbatim>\<open>bytecode/bytecode.py\<close>\<close>

text \<open>
  The source defines the class \<^verbatim>\<open>Bytecode\<close>, a Python list of entries that also carries
  the metadata of a function. Its bases are, in this order, \<^verbatim>\<open>_InstrList\<close> and
  \<^verbatim>\<open>_BaseBytecodeList\<close>, so the method resolution order of \<^verbatim>\<open>Bytecode\<close> is
  \<^verbatim>\<open>Bytecode, _InstrList, _BaseBytecodeList, BaseBytecode, list\<close>: a method is taken from
  the first class of that chain which defines it.

  Python objects that the code mutates or shares live in an explicit heap; everything else
  is a value. Exceptions are values of the type \<open>error\<close>.
\<close>

subsection \<open>Entries of the stream\<close>

type_synonym addr = nat

text \<open>A \<^verbatim>\<open>Label\<close> has no payload: it is the identity of the object, a number here.\<close>

type_synonym label = nat

text \<open>
  The module \<^verbatim>\<open>bytecode.instr\<close> is imported by the source and is not part of it.

  Modelled from the spec: the class \<^verbatim>\<open>Instr\<close> of \<^verbatim>\<open>bytecode.instr\<close> is missing. The spec
  gives an instruction an operation name, an optional argument (a reference to a Label, an
  integer or an opaque value), an optional source line number for which the sentinel
  \<^verbatim>\<open>UNSET\<close> is allowed, and an optional source-location tuple whose parts are
  independently nullable.
\<close>

datatype lineno = UNSET | LineNone | Line int

datatype arg = ArgUnset | ArgInt int | ArgLabel label | ArgOpaque string

datatype location = Location "int option" "int option" "int option" "int option"

record instr =
  instr_name :: string
  instr_arg :: arg
  instr_lineno :: lineno
  instr_location :: "location option"

text \<open>
  An element of the list. \<^verbatim>\<open>Instr\<close> objects are mutable (\<^verbatim>\<open>legalize\<close> assigns their
  \<^verbatim>\<open>lineno\<close>) and one object may stand at several positions and in several lists, so an
  instruction entry is the address of the object in the heap.

  Modelled from the spec: the classes \<^verbatim>\<open>SetLineno\<close>, \<^verbatim>\<open>TryBegin\<close> and \<^verbatim>\<open>TryEnd\<close> of
  \<^verbatim>\<open>bytecode.instr\<close> are missing. The spec gives a line marker a line number, and the
  two region markers enough identity to pair a begin with its end: \<open>TryBegin t\<close> is the
  region object \<open>t\<close>, \<open>TryEnd t\<close> the end marker of the region \<open>t\<close>. No code of the source
  mutates them.

  A Python list holds any object: \<open>Foreign n\<close> is an object whose type, named \<open>n\<close>, is none
  of the five classes.
\<close>

datatype entry =
    Instr addr
  | Label label
  | SetLineno int
  | TryBegin nat
  | TryEnd nat
  | Foreign string

subsection \<open>Exceptions\<close>

text \<open>
  \<open>ValueError n\<close> is raised by \<^verbatim>\<open>_check_instr\<close> and names the offending type (the spec's
  MalformedEntry); \<open>RuntimeError\<close> is raised by \<^verbatim>\<open>Bytecode.__iter__\<close> (NestingViolation);
  \<open>KeyError l\<close> is the failed dictionary lookup of \<^verbatim>\<open>_flat\<close> (UnresolvedLabelReference);
  \<open>TypeError\<close> is raised by \<^verbatim>\<open>list(x)\<close> for an \<open>x\<close> that cannot be iterated;
  \<open>IndexError\<close> is raised by \<^verbatim>\<open>del xs[i]\<close> for an \<open>i\<close> out of range.
\<close>

datatype error = ValueError string | RuntimeError | KeyError label | TypeError | IndexError

subsection \<open>The function metadata and the heap\<close>

datatype docstring = DocUnset | DocNone | DocStr string

text \<open>
  The attributes set by \<^verbatim>\<open>BaseBytecode.__init__\<close> and \<^verbatim>\<open>Bytecode.__init__\<close>, and the list
  itself (\<open>entries\<close>). The attributes \<^verbatim>\<open>cellvars\<close>, \<^verbatim>\<open>freevars\<close> and \<^verbatim>\<open>argnames\<close> hold
  Python lists, which are mutable objects: the record holds their addresses.
\<close>

record bytecode =
  argcount :: int
  posonlyargcount :: int
  kwonlyargcount :: int
  first_lineno :: int
  name :: string
  filename :: string
  docstring :: docstring
  cellvars :: addr
  freevars :: addr
  flags :: int
  argnames :: addr
  entries :: "entry list"

text \<open>
  The heap: the \<^verbatim>\<open>Instr\<close> objects, the lists of names, and the next address at which a
  list of names is allocated.
\<close>

record heap =
  instrs :: "addr \<Rightarrow> instr"
  lists :: "addr \<Rightarrow> string list"
  next_list :: addr

subsection \<open>Validation and iteration\<close>

text \<open>
  \<^verbatim>\<open>Bytecode._check_instr\<close> (lines 228-234): an object that is not an instance of
  \<^verbatim>\<open>Label\<close>, \<^verbatim>\<open>SetLineno\<close>, \<^verbatim>\<open>Instr\<close>, \<^verbatim>\<open>TryBegin\<close> or \<^verbatim>\<open>TryEnd\<close> raises ValueError.
\<close>

fun check_instr :: "entry \<Rightarrow> error + unit" where
  "check_instr (Foreign n) = Inl (ValueError n)"
| "check_instr _ = Inr ()"

text \<open>
  A generator that is consumed by a \<^verbatim>\<open>for\<close> loop yields some items and then either
  ends or raises: its model is the list of the items it yields and the exception that ends
  it, if any. The body of the consuming loop runs once for every item yielded, before the
  exception reaches the consumer.

  \<^verbatim>\<open>_BaseBytecodeList.__iter__\<close> (lines 152-156) checks an item and yields it.
\<close>

fun BaseBytecodeList_iter :: "entry list \<Rightarrow> entry list \<times> error option" where
  "BaseBytecodeList_iter [] = ([], None)"
| "BaseBytecodeList_iter (x # xs) =
     (case check_instr x of
        Inl e \<Rightarrow> ([], Some e)
      | Inr _ \<Rightarrow> (case BaseBytecodeList_iter xs of (ys, r) \<Rightarrow> (x # ys, r)))"

text \<open>
  The loop of \<^verbatim>\<open>Bytecode.__iter__\<close> (lines 217-226) over the items it receives, from the
  value \<open>seen\<close> of \<^verbatim>\<open>seen_try_begin\<close>.
\<close>

fun iter_loop :: "bool \<Rightarrow> entry list \<Rightarrow> entry list \<times> error option" where
  "iter_loop seen [] = ([], None)"
| "iter_loop seen (x # xs) =
     (case check_instr x of
        Inl e \<Rightarrow> ([], Some e)
      | Inr _ \<Rightarrow>
         (case x of
            TryBegin t \<Rightarrow>
              if seen then ([], Some RuntimeError)
              else (case iter_loop True xs of (ys, r) \<Rightarrow> (x # ys, r))
          | TryEnd t \<Rightarrow> (case iter_loop False xs of (ys, r) \<Rightarrow> (x # ys, r))
          | _ \<Rightarrow> (case iter_loop seen xs of (ys, r) \<Rightarrow> (x # ys, r))))"

text \<open>
  \<^verbatim>\<open>Bytecode.__iter__\<close> (lines 215-226): the loop runs over the generator of
  \<^verbatim>\<open>_BaseBytecodeList.__iter__\<close>; an exception of that generator reaches the consumer
  after the items before it went through the loop.
\<close>

definition Bytecode_iter :: "entry list \<Rightarrow> entry list \<times> error option" where
  "Bytecode_iter es =
     (case BaseBytecodeList_iter es of
        (xs, r) \<Rightarrow>
          (case iter_loop False xs of
             (ys, Some e) \<Rightarrow> (ys, Some e)
           | (ys, None) \<Rightarrow> (ys, r)))"

text \<open>
  The value of \<^verbatim>\<open>seen_try_begin\<close> after the assignments of lines 220-225 for the items
  \<open>xs\<close>, from the value \<open>seen\<close>.
\<close>

fun seen_try_begin :: "bool \<Rightarrow> entry list \<Rightarrow> bool" where
  "seen_try_begin seen [] = seen"
| "seen_try_begin seen (TryBegin t # xs) = seen_try_begin True xs"
| "seen_try_begin seen (TryEnd t # xs) = seen_try_begin False xs"
| "seen_try_begin seen (x # xs) = seen_try_begin seen xs"

text \<open>\<^verbatim>\<open>list.__iter__\<close>: every item is yielded, nothing is checked.\<close>

definition list_iter :: "entry list \<Rightarrow> entry list \<times> error option" where
  "list_iter es = (es, None)"

subsection \<open>Legalization\<close>

text \<open>
  The local variables of \<^verbatim>\<open>legalize\<close> (lines 130-132) and the \<^verbatim>\<open>Instr\<close> objects of the
  heap, which the loop mutates.
\<close>

record legalize_state =
  ls_instrs :: "addr \<Rightarrow> instr"
  set_lineno :: "int option"
  current_lineno :: lineno
  lineno_pos :: "nat list"

text \<open>
  The body of the first loop of \<^verbatim>\<open>legalize\<close> (lines 135-147) for the item at position
  \<open>pos\<close>. Of the five classes only \<^verbatim>\<open>Instr\<close> is a \<^verbatim>\<open>BaseInstr\<close>; an object of another
  type never reaches the body, since the iteration raises before it yields it.

  Modelled from the spec: the setter of \<^verbatim>\<open>Instr.lineno\<close> of \<^verbatim>\<open>bytecode.instr\<close> is missing.
  In the spec (4.2) the assignment overwrites the line number of the instruction.
\<close>

fun legalize_body :: "nat \<Rightarrow> entry \<Rightarrow> legalize_state \<Rightarrow> legalize_state" where
  "legalize_body pos (SetLineno n) st =
     st\<lparr>set_lineno := Some n, lineno_pos := lineno_pos st @ [pos]\<rparr>"
| "legalize_body pos (Instr a) st =
     (case set_lineno st of
        Some n \<Rightarrow>
          st\<lparr>ls_instrs := (ls_instrs st)(a := (ls_instrs st a)\<lparr>instr_lineno := Line n\<rparr>)\<rparr>
      | None \<Rightarrow>
          if instr_lineno (ls_instrs st a) = UNSET
          then st\<lparr>ls_instrs :=
                 (ls_instrs st)(a := (ls_instrs st a)\<lparr>instr_lineno := current_lineno st\<rparr>)\<rparr>
          else st\<lparr>current_lineno := instr_lineno (ls_instrs st a)\<rparr>)"
| "legalize_body pos _ st = st"

text \<open>The loop over \<^verbatim>\<open>enumerate\<close> of the items yielded, counting from \<open>pos\<close>.\<close>

fun legalize_loop :: "nat \<Rightarrow> entry list \<Rightarrow> legalize_state \<Rightarrow> legalize_state" where
  "legalize_loop pos [] st = st"
| "legalize_loop pos (x # xs) st = legalize_loop (Suc pos) xs (legalize_body pos x st)"

text \<open>
  The second loop (lines 149-150): \<^verbatim>\<open>del self[i]\<close> for the positions in the order
  given. An index out of range raises IndexError and leaves the list as it is then.
\<close>

fun del_items :: "nat list \<Rightarrow> entry list \<Rightarrow> error option \<times> entry list" where
  "del_items [] xs = (None, xs)"
| "del_items (i # ps) xs =
     (if i < length xs then del_items ps (take i xs @ drop (Suc i) xs)
      else (Some IndexError, xs))"

text \<open>
  \<^verbatim>\<open>_BaseBytecodeList.legalize\<close> (lines 128-150). \<^verbatim>\<open>enumerate(self)\<close> iterates with
  \<^verbatim>\<open>Bytecode.__iter__\<close>. The result is the exception raised, if any, and the heap and the
  container as the call leaves them.
\<close>

definition legalize :: "heap \<Rightarrow> bytecode \<Rightarrow> error option \<times> heap \<times> bytecode" where
  "legalize h self =
     (case Bytecode_iter (entries self) of
        (ys, raised) \<Rightarrow>
          let st = legalize_loop 0 ys
                     \<lparr>ls_instrs = instrs h, set_lineno = None,
                      current_lineno = Line (first_lineno self), lineno_pos = []\<rparr>;
              h' = h\<lparr>instrs := ls_instrs st\<rparr>
          in (case raised of
                Some e \<Rightarrow> (Some e, h', self)
              | None \<Rightarrow>
                  (case del_items (rev (lineno_pos st)) (entries self) of
                     (r, es) \<Rightarrow> (r, h', self\<lparr>entries := es\<rparr>))))"

subsection \<open>The comparison normalizer\<close>

text \<open>
  An element of the list that \<^verbatim>\<open>_flat\<close> returns: the string \<^verbatim>\<open>"label_instr%s" % index\<close>,
  an object of the list as it is (an \<^verbatim>\<open>Instr\<close> by its value, since the comparison is by
  value), or a new \<^verbatim>\<open>ConcreteInstr\<close>.

  Modelled from the spec: the class \<^verbatim>\<open>ConcreteInstr\<close> and the equality of instructions
  are missing. The source builds a \<^verbatim>\<open>ConcreteInstr\<close> from a name, an argument and a
  location; in the spec (4.3, step 6) the emitted sequences are compared structurally.
\<close>

datatype flat_item =
    Placeholder nat
  | Object entry
  | InstrObject instr
  | ConcreteInstr string nat "location option"

record flat_state =
  instructions :: "flat_item list"
  labels :: "label \<rightharpoonup> nat"
  jumps :: "(label \<times> nat) list"
  offset :: nat

text \<open>
  The body of the first loop of \<^verbatim>\<open>_flat\<close> (lines 176-187). A pair of \<open>jumps\<close> holds the
  target label and the position in \<open>instructions\<close> of the \<^verbatim>\<open>ConcreteInstr\<close> appended,
  which is the object the second loop assigns to.
\<close>

fun flat_body :: "heap \<Rightarrow> nat \<Rightarrow> entry \<Rightarrow> flat_state \<Rightarrow> flat_state" where
  "flat_body h index (Label l) st =
     st\<lparr>instructions := instructions st @ [Placeholder index],
        labels := (labels st)(l \<mapsto> offset st)\<rparr>"
| "flat_body h index (Instr a) st =
     (case instr_arg (instrs h a) of
        ArgLabel target_label \<Rightarrow>
          st\<lparr>jumps := jumps st @ [(target_label, length (instructions st))],
             instructions := instructions st @
               [ConcreteInstr (instr_name (instrs h a)) 0 (instr_location (instrs h a))],
             offset := offset st + 1\<rparr>
      | _ \<Rightarrow>
          st\<lparr>instructions := instructions st @ [InstrObject (instrs h a)],
             offset := offset st + 1\<rparr>)"
| "flat_body h index x st =
     st\<lparr>instructions := instructions st @ [Object x], offset := offset st + 1\<rparr>"

fun flat_loop :: "heap \<Rightarrow> nat \<Rightarrow> entry list \<Rightarrow> flat_state \<Rightarrow> flat_state" where
  "flat_loop h index [] st = st"
| "flat_loop h index (x # xs) st = flat_loop h (Suc index) xs (flat_body h index x st)"

text \<open>\<^verbatim>\<open>instr.arg = v\<close> for the \<^verbatim>\<open>ConcreteInstr\<close> objects of the second loop.\<close>

fun set_arg :: "nat \<Rightarrow> flat_item \<Rightarrow> flat_item" where
  "set_arg v (ConcreteInstr n a loc) = ConcreteInstr n v loc"
| "set_arg v x = x"

text \<open>
  The second loop of \<^verbatim>\<open>_flat\<close> (lines 189-190): the lookup \<^verbatim>\<open>labels[target_label]\<close> raises
  KeyError for a label that is not a key.
\<close>

fun resolve_jumps ::
  "(label \<rightharpoonup> nat) \<Rightarrow> (label \<times> nat) list \<Rightarrow> flat_item list \<Rightarrow> error + flat_item list" where
  "resolve_jumps lbls [] ins = Inr ins"
| "resolve_jumps lbls ((target_label, k) # js) ins =
     (case lbls target_label of
        None \<Rightarrow> Inl (KeyError target_label)
      | Some v \<Rightarrow> resolve_jumps lbls js (ins[k := set_arg v (ins ! k)]))"

text \<open>
  \<^verbatim>\<open>_InstrList._flat\<close> (lines 168-192). \<^verbatim>\<open>enumerate(self)\<close> iterates with the
  \<^verbatim>\<open>__iter__\<close> of the class of \<open>self\<close>, the parameter \<open>iter\<close>: \<open>Bytecode_iter\<close> for a
  \<^verbatim>\<open>Bytecode\<close>, \<open>list_iter\<close> for a plain \<^verbatim>\<open>_InstrList\<close>.
\<close>

definition flat ::
  "(entry list \<Rightarrow> entry list \<times> error option) \<Rightarrow> heap \<Rightarrow> entry list \<Rightarrow> error + flat_item list" where
  "flat iter h es =
     (case iter es of
        (ys, raised) \<Rightarrow>
          let st = flat_loop h 0 ys
                     \<lparr>instructions = [], labels = Map.empty, jumps = [], offset = 0\<rparr>
          in (case raised of
                Some e \<Rightarrow> Inl e
              | None \<Rightarrow> resolve_jumps (labels st) (jumps st) (instructions st)))"

subsection \<open>Equality\<close>

text \<open>
  The right operand of \<^verbatim>\<open>==\<close>, and the argument of the constructor: a \<^verbatim>\<open>Bytecode\<close>; an
  object of another type that can be iterated (a list, a tuple, a container of another
  concrete kind), with the items its iteration yields; or an object that cannot be
  iterated.
\<close>

datatype pyobj = PyBytecode bytecode | PyIterable "entry list" | PyNotIterable

text \<open>
  \<^verbatim>\<open>self._flat() == other._flat()\<close>: the left operand is evaluated first, an exception of
  either ends the comparison.
\<close>

definition flat_equal :: "error + flat_item list \<Rightarrow> error + flat_item list \<Rightarrow> error + bool" where
  "flat_equal a b =
     (case a of
        Inl e \<Rightarrow> Inl e
      | Inr xs \<Rightarrow> (case b of Inl e \<Rightarrow> Inl e | Inr ys \<Rightarrow> Inr (xs = ys)))"

text \<open>
  \<^verbatim>\<open>_InstrList.__eq__\<close> (lines 194-198) for a \<^verbatim>\<open>Bytecode\<close> on the left. An \<open>other\<close> that is
  not an \<^verbatim>\<open>_InstrList\<close> is copied into a plain \<^verbatim>\<open>_InstrList\<close>, which iterates as a list.
\<close>

definition InstrList_eq :: "heap \<Rightarrow> bytecode \<Rightarrow> pyobj \<Rightarrow> error + bool" where
  "InstrList_eq h self other =
     (case other of
        PyBytecode b \<Rightarrow>
          flat_equal (flat Bytecode_iter h (entries self)) (flat Bytecode_iter h (entries b))
      | PyIterable xs \<Rightarrow>
          flat_equal (flat Bytecode_iter h (entries self)) (flat list_iter h xs)
      | PyNotIterable \<Rightarrow> Inl TypeError)"

text \<open>
  \<^verbatim>\<open>BaseBytecode.__eq__\<close> (lines 51-78). \<^verbatim>\<open>compute_stacksize\<close> is computed by a
  control-flow graph outside the source: it is the parameter \<open>compute_stacksize\<close>.
\<close>

definition BaseBytecode_eq ::
  "(heap \<Rightarrow> bytecode \<Rightarrow> int) \<Rightarrow> heap \<Rightarrow> bytecode \<Rightarrow> pyobj \<Rightarrow> bool" where
  "BaseBytecode_eq compute_stacksize h self other =
     (case other of
        PyBytecode b \<Rightarrow>
          if argcount self \<noteq> argcount b then False
          else if posonlyargcount self \<noteq> posonlyargcount b then False
          else if kwonlyargcount self \<noteq> kwonlyargcount b then False
          else if flags self \<noteq> flags b then False
          else if first_lineno self \<noteq> first_lineno b then False
          else if filename self \<noteq> filename b then False
          else if name self \<noteq> name b then False
          else if docstring self \<noteq> docstring b then False
          else if lists h (cellvars self) \<noteq> lists h (cellvars b) then False
          else if lists h (freevars self) \<noteq> lists h (freevars b) then False
          else if compute_stacksize h self \<noteq> compute_stacksize h b then False
          else True
      | _ \<Rightarrow> False)"

text \<open>
  The \<^verbatim>\<open>==\<close> of a \<^verbatim>\<open>Bytecode\<close>. The class defines no \<^verbatim>\<open>__eq__\<close>; in its method resolution
  order \<^verbatim>\<open>_InstrList\<close> comes before \<^verbatim>\<open>BaseBytecode\<close>, and \<^verbatim>\<open>_InstrList.__eq__\<close> calls no
  \<^verbatim>\<open>super().__eq__\<close>: the method that runs is \<^verbatim>\<open>_InstrList.__eq__\<close> alone.
\<close>

definition Bytecode_eq :: "heap \<Rightarrow> bytecode \<Rightarrow> pyobj \<Rightarrow> error + bool" where
  "Bytecode_eq h self other = InstrList_eq h self other"

subsection \<open>Construction and copy\<close>

text \<open>The evaluation of a list display or of \<^verbatim>\<open>list(xs)\<close>: a new list object.\<close>

definition alloc_list :: "heap \<Rightarrow> string list \<Rightarrow> heap \<times> addr" where
  "alloc_list h xs =
     (h\<lparr>lists := (lists h)(next_list h := xs), next_list := Suc (next_list h)\<rparr>, next_list h)"

text \<open>The loop of \<^verbatim>\<open>Bytecode.__init__\<close> (lines 211-212).\<close>

fun check_instrs :: "entry list \<Rightarrow> error + unit" where
  "check_instrs [] = Inr ()"
| "check_instrs (x # xs) =
     (case check_instr x of Inl e \<Rightarrow> Inl e | Inr _ \<Rightarrow> check_instrs xs)"

text \<open>
  A \<^verbatim>\<open>for\<close> loop over an object \<open>x\<close>, or any other consumer of \<^verbatim>\<open>iter(x)\<close>: a \<^verbatim>\<open>Bytecode\<close>
  iterates with \<^verbatim>\<open>Bytecode.__iter__\<close>, which validates; another iterable yields its items;
  an object that cannot be iterated raises TypeError.
\<close>

definition py_iter :: "pyobj \<Rightarrow> error + entry list \<times> error option" where
  "py_iter x =
     (case x of
        PyBytecode b \<Rightarrow> Inr (Bytecode_iter (entries b))
      | PyIterable xs \<Rightarrow> Inr (list_iter xs)
      | PyNotIterable \<Rightarrow> Inl TypeError)"

text \<open>
  \<^verbatim>\<open>self.extend(x)\<close> for the empty list \<open>self\<close> (line 213): the items that the iteration
  of \<open>x\<close> yields, when it ends without an exception.
\<close>

definition extend_items :: "pyobj \<Rightarrow> error + entry list" where
  "extend_items x =
     (case py_iter x of
        Inl e \<Rightarrow> Inl e
      | Inr (zs, Some e) \<Rightarrow> Inl e
      | Inr (zs, None) \<Rightarrow> Inr zs)"

text \<open>
  \<^verbatim>\<open>Bytecode.__init__\<close> (lines 205-213) with \<^verbatim>\<open>BaseBytecode.__init__\<close> (lines 25-37), for
  an argument \<open>seq\<close> (the \<^verbatim>\<open>instructions\<close> of the source). The loop of line 211 iterates
  the argument with the \<^verbatim>\<open>__iter__\<close> of its own class and checks every item it yields; an
  exception of that iteration ends the constructor. When the constructor raises, the new
  object is lost.
\<close>

definition Bytecode_init :: "heap \<Rightarrow> pyobj \<Rightarrow> error + heap \<times> bytecode" where
  "Bytecode_init h seq =
     (case alloc_list h [] of (h1, cv) \<Rightarrow>
      case alloc_list h1 [] of (h2, fv) \<Rightarrow>
      case alloc_list h2 [] of (h3, an) \<Rightarrow>
        (case py_iter seq of
           Inl e \<Rightarrow> Inl e
         | Inr (ys, raised) \<Rightarrow>
             (case check_instrs ys of
                Inl e \<Rightarrow> Inl e
              | Inr _ \<Rightarrow>
                  (case raised of
                     Some e \<Rightarrow> Inl e
                   | None \<Rightarrow>
                       (case extend_items seq of
                          Inl e \<Rightarrow> Inl e
                        | Inr zs \<Rightarrow>
                            Inr (h3,
                              \<lparr>argcount = 0, posonlyargcount = 0, kwonlyargcount = 0,
                               first_lineno = 1, name = ''<module>'',
                               filename = ''<string>'', docstring = DocUnset,
                               cellvars = cv, freevars = fv, flags = 0, argnames = an,
                               entries = zs\<rparr>))))))"

text \<open>\<^verbatim>\<open>BaseBytecode._copy_attr_from\<close> (lines 39-49).\<close>

definition BaseBytecode_copy_attr_from :: "heap \<Rightarrow> bytecode \<Rightarrow> bytecode \<Rightarrow> heap \<times> bytecode" where
  "BaseBytecode_copy_attr_from h self b =
     (case alloc_list h (lists h (cellvars b)) of (h1, cv) \<Rightarrow>
      case alloc_list h1 (lists h1 (freevars b)) of (h2, fv) \<Rightarrow>
        (h2, self\<lparr>argcount := argcount b, posonlyargcount := posonlyargcount b,
                  kwonlyargcount := kwonlyargcount b, flags := flags b,
                  first_lineno := first_lineno b, name := name b, filename := filename b,
                  docstring := docstring b, cellvars := cv, freevars := fv\<rparr>))"

text \<open>\<^verbatim>\<open>Bytecode._copy_attr_from\<close> (lines 236-239), for a \<^verbatim>\<open>Bytecode\<close> \<open>b\<close>.\<close>

definition Bytecode_copy_attr_from :: "heap \<Rightarrow> bytecode \<Rightarrow> bytecode \<Rightarrow> heap \<times> bytecode" where
  "Bytecode_copy_attr_from h self b =
     (case BaseBytecode_copy_attr_from h self b of
        (h1, s) \<Rightarrow> (h1, s\<lparr>argnames := argnames b\<rparr>))"

text \<open>
  \<^verbatim>\<open>_BaseBytecodeList.copy\<close> (lines 122-126), as far as the state of the new object:
  \<^verbatim>\<open>list.copy\<close> gives a plain list of the same objects, from which the constructor builds
  the new container.
\<close>

definition copy :: "heap \<Rightarrow> bytecode \<Rightarrow> error + heap \<times> bytecode" where
  "copy h self =
     (case Bytecode_init h (PyIterable (entries self)) of
        Inl e \<Rightarrow> Inl e
      | Inr (h1, new) \<Rightarrow> Inr (Bytecode_copy_attr_from h1 new self))"

subsection \<open>Containers as objects\<close>

text \<open>
  A \<^verbatim>\<open>Bytecode\<close> is itself a mutable object, the list that holds the entries: two variables
  may name one container. An object heap holds the containers at their addresses, beside
  the heap of the instructions and the lists of names.
\<close>

record objheap =
  oh_heap :: heap
  containers :: "addr \<Rightarrow> bytecode"
  next_container :: addr

text \<open>
  \<^verbatim>\<open>c2 = c.copy()\<close> for the container at the address \<open>c\<close>: the call \<^verbatim>\<open>type(self)(...)\<close>
  creates a new object, whose address is returned.
\<close>

definition copy_object :: "objheap \<Rightarrow> addr \<Rightarrow> error + objheap \<times> addr" where
  "copy_object s c =
     (case copy (oh_heap s) (containers s c) of
        Inl e \<Rightarrow> Inl e
      | Inr (h2, new) \<Rightarrow>
          Inr (s\<lparr>oh_heap := h2,
                 containers := (containers s)(next_container s := new),
                 next_container := Suc (next_container s)\<rparr>,
               next_container s))"

text \<open>
  A mutation of the entry sequence of the container at the address \<open>c\<close> (\<^verbatim>\<open>append\<close>,
  \<^verbatim>\<open>extend\<close>, \<^verbatim>\<open>del\<close>, an assignment to an item or to a slice): the object holds the
  sequence \<open>es\<close> afterwards.
\<close>

definition set_entries :: "objheap \<Rightarrow> addr \<Rightarrow> entry list \<Rightarrow> objheap" where
  "set_entries s c es =
     s\<lparr>containers := (containers s)(c := (containers s c)\<lparr>entries := es\<rparr>)\<rparr>"

subsection \<open>Client operations on the heap\<close>

text \<open>\<^verbatim>\<open>instr.lineno = v\<close> for the \<^verbatim>\<open>Instr\<close> object at the address \<open>a\<close>.\<close>

definition assign_lineno :: "heap \<Rightarrow> addr \<Rightarrow> lineno \<Rightarrow> heap" where
  "assign_lineno h a v = h\<lparr>instrs := (instrs h)(a := (instrs h a)\<lparr>instr_lineno := v\<rparr>)\<rparr>"

text \<open>\<^verbatim>\<open>xs.append(v)\<close> for the list of names at the address \<open>r\<close>.\<close>

definition list_append :: "heap \<Rightarrow> addr \<Rightarrow> string \<Rightarrow> heap" where
  "list_append h r v = h\<lparr>lists := (lists h)(r := lists h r @ [v])\<rparr>"

text \<open>
  The client program \<^verbatim>\<open>c2 = c.copy(); c2[i].lineno = v\<close>, for an index \<open>i\<close> at which the
  copy holds an \<^verbatim>\<open>Instr\<close>; the result is the heap it leaves.
\<close>

definition copy_then_assign_lineno :: "heap \<Rightarrow> bytecode \<Rightarrow> nat \<Rightarrow> lineno \<Rightarrow> error + heap" where
  "copy_then_assign_lineno h c i v =
     (case copy h c of
        Inl e \<Rightarrow> Inl e
      | Inr (h2, c2) \<Rightarrow>
          if i < length (entries c2)
          then (case entries c2 ! i of
                  Instr a \<Rightarrow> Inr (assign_lineno h2 a v)
                | _ \<Rightarrow> Inr h2)
          else Inl IndexError)"

text \<open>The client program \<^verbatim>\<open>c2 = c.copy(); c2.argnames.append(v)\<close>.\<close>

definition copy_then_append_argnames :: "heap \<Rightarrow> bytecode \<Rightarrow> string \<Rightarrow> error + heap" where
  "copy_then_append_argnames h c v =
     (case copy h c of
        Inl e \<Rightarrow> Inl e
      | Inr (h2, c2) \<Rightarrow> Inr (list_append h2 (argnames c2) v))"

text \<open>The values of the \<^verbatim>\<open>Instr\<close> objects that a list of entries holds, in order.\<close>

fun instr_objects :: "heap \<Rightarrow> entry list \<Rightarrow> instr list" where
  "instr_objects h [] = []"
| "instr_objects h (Instr a # xs) = instrs h a # instr_objects h xs"
| "instr_objects h (x # xs) = instr_objects h xs"

subsection \<open>Notions of the statements\<close>

text \<open>
  \<^verbatim>\<open>Bytecode.__iter__\<close> started from any value of \<^verbatim>\<open>seen_try_begin\<close>: the form the
  inductions over the list need. \<open>Bytecode_iter\<close> is \<open>Bytecode_iter_from False\<close>.
\<close>

definition Bytecode_iter_from :: "bool \<Rightarrow> entry list \<Rightarrow> entry list \<times> error option" where
  "Bytecode_iter_from seen es =
     (case BaseBytecodeList_iter es of
        (xs, r) \<Rightarrow>
          (case iter_loop seen xs of
             (ys, Some e) \<Rightarrow> (ys, Some e)
           | (ys, None) \<Rightarrow> (ys, r)))"

text \<open>\<^verbatim>\<open>isinstance(instr, SetLineno)\<close>.\<close>

fun is_SetLineno :: "entry \<Rightarrow> bool" where
  "is_SetLineno (SetLineno n) = True"
| "is_SetLineno _ = False"

text \<open>
  Renaming the labels of a container by \<open>f\<close>: a label entry \<open>l\<close> becomes the label \<open>f l\<close>
  at the same position; an instruction becomes an instruction object that differs at most
  in its argument, which is the label \<open>f l\<close> where it was the label \<open>l\<close>; every other entry
  stays the same object.
\<close>

definition rename_instr :: "(label \<Rightarrow> label) \<Rightarrow> instr \<Rightarrow> instr" where
  "rename_instr f i =
     i\<lparr>instr_arg := (case instr_arg i of ArgLabel l \<Rightarrow> ArgLabel (f l) | x \<Rightarrow> x)\<rparr>"

fun renamed :: "heap \<Rightarrow> (label \<Rightarrow> label) \<Rightarrow> entry \<Rightarrow> entry \<Rightarrow> bool" where
  "renamed h f (Label l) y = (y = Label (f l))"
| "renamed h f (Instr a) y =
     (case y of Instr a' \<Rightarrow> instrs h a' = rename_instr f (instrs h a) | _ \<Rightarrow> False)"
| "renamed h f x y = (y = x)"

text \<open>The labels of a list of entries: the label entries and the label arguments.\<close>

fun entry_labels :: "heap \<Rightarrow> entry \<Rightarrow> label list" where
  "entry_labels h (Label l) = [l]"
| "entry_labels h (Instr a) = (case instr_arg (instrs h a) of ArgLabel l \<Rightarrow> [l] | _ \<Rightarrow> [])"
| "entry_labels h x = []"

definition labels_of :: "heap \<Rightarrow> entry list \<Rightarrow> label list" where
  "labels_of h es = concat (map (entry_labels h) es)"

text \<open>
  The relation of the simulation proof for the renaming: the states of the first loop of
  \<^verbatim>\<open>_flat\<close> on a container and on its renaming by \<open>f\<close> hold the same \<open>instructions\<close> and
  \<open>offset\<close>, the targets of the \<open>jumps\<close> are renamed, and the dictionary \<open>labels\<close> of the
  renaming gives the label \<open>f l\<close> what the other gives \<open>l\<close>, for the labels \<open>L\<close> of the
  container.
\<close>

definition flat_sim :: "(label \<Rightarrow> label) \<Rightarrow> label set \<Rightarrow> 'a flat_state_scheme \<Rightarrow> 'b flat_state_scheme \<Rightarrow> bool" where
  "flat_sim f L st st2 \<longleftrightarrow>
     instructions st2 = instructions st \<and> offset st2 = offset st \<and>
     jumps st2 = map (\<lambda>(t, k). (f t, k)) (jumps st) \<and>
     (\<forall>l\<in>L. labels st2 (f l) = labels st l)"

subsection \<open>Example objects\<close>

text \<open>
  An instruction with no argument and no line, and a jump to a label. The heap of the
  examples holds the instructions \<^verbatim>\<open>A\<close>, \<^verbatim>\<open>B\<close>, \<^verbatim>\<open>C\<close> at the addresses 0, 1, 2, a jump
  to the label 7 at the address 3 and a jump to the label 8 at the address 4; its lists of
  names 0, 1, 2 are empty. \<open>bytecode0 es\<close> is the container with the default metadata of
  \<^verbatim>\<open>BaseBytecode.__init__\<close>, these three lists and the entries \<open>es\<close>.
\<close>

definition fresh_instr :: "string \<Rightarrow> instr" where
  "fresh_instr n =
     \<lparr>instr_name = n, instr_arg = ArgUnset, instr_lineno = UNSET, instr_location = None\<rparr>"

definition jump_instr :: "label \<Rightarrow> instr" where
  "jump_instr l =
     \<lparr>instr_name = ''JUMP'', instr_arg = ArgLabel l, instr_lineno = UNSET,
      instr_location = None\<rparr>"

definition heap0 :: heap where
  "heap0 =
     \<lparr>instrs = (\<lambda>a. if a = 3 then jump_instr 7 else if a = 4 then jump_instr 8
                    else fresh_instr (if a = 0 then ''A'' else if a = 1 then ''B'' else ''C'')),
      lists = (\<lambda>r. []), next_list = 3\<rparr>"

definition bytecode0 :: "entry list \<Rightarrow> bytecode" where
  "bytecode0 es =
     \<lparr>argcount = 0, posonlyargcount = 0, kwonlyargcount = 0, first_lineno = 1,
      name = ''<module>'', filename = ''<string>'', docstring = DocUnset,
      cellvars = 0, freevars = 1, flags = 0, argnames = 2, entries = es\<rparr>"

section \<open>Iteration\<close>

lemma Bytecode_iter_from_Nil [simp]: "Bytecode_iter_from seen [] = ([], None)"
  by (simp add: Bytecode_iter_from_def)

lemma Bytecode_iter_from_Cons:
  "Bytecode_iter_from seen (x # xs) =
     (case x of
        Foreign n \<Rightarrow> ([], Some (ValueError n))
      | TryBegin t \<Rightarrow>
          if seen then ([], Some RuntimeError)
          else (case Bytecode_iter_from True xs of (ys, r) \<Rightarrow> (x # ys, r))
      | TryEnd t \<Rightarrow> (case Bytecode_iter_from False xs of (ys, r) \<Rightarrow> (x # ys, r))
      | _ \<Rightarrow> (case Bytecode_iter_from seen xs of (ys, r) \<Rightarrow> (x # ys, r)))"
  by (cases x) (auto simp: Bytecode_iter_from_def split: prod.splits option.splits)

lemma Bytecode_iter_eq_from: "Bytecode_iter es = Bytecode_iter_from False es"
  by (simp add: Bytecode_iter_def Bytecode_iter_from_def)

lemma snd_case_yield [simp]: "snd (case p of (ys, r) \<Rightarrow> (x # ys, r)) = snd p"
  by (cases p) simp

lemma fst_case_yield [simp]: "fst (case p of (ys, r) \<Rightarrow> (x # ys, r)) = x # fst p"
  by (cases p) simp

lemma case_yield_eq [simp]:
  "(case p of (ys, r) \<Rightarrow> (x # ys, r)) = (x # zs, r') \<longleftrightarrow> p = (zs, r')"
  by (cases p) simp

lemma ex_less_Cons:
  "(\<exists>k<length (x # xs). P k) \<longleftrightarrow> P 0 \<or> (\<exists>k<length xs. P (Suc k))"
  by (auto simp: less_Suc_eq_0_disj)

lemma Bytecode_iter_from_RuntimeError:
  "snd (Bytecode_iter_from seen es) = Some RuntimeError \<longleftrightarrow>
     (\<exists>k<length es. (\<exists>t. es ! k = TryBegin t) \<and> seen_try_begin seen (take k es) \<and>
        Bytecode_iter_from seen (take k es) = (take k es, None))"
proof (induction es arbitrary: seen)
  case Nil
  show ?case by simp
next
  case (Cons x xs)
  show ?case
    unfolding ex_less_Cons
    by (cases x) (simp_all add: Bytecode_iter_from_Cons Cons.IH)
qed

text \<open>The items yielded are a prefix of the list: the whole list when nothing is raised.\<close>

lemma Bytecode_iter_from_prefix:
  "\<exists>zs. es = fst (Bytecode_iter_from seen es) @ zs \<and>
     (snd (Bytecode_iter_from seen es) = None \<longrightarrow> zs = [])"
proof (induction es arbitrary: seen)
  case Nil
  show ?case by simp
next
  case (Cons x xs)
  show ?case
    using Cons.IH [of seen] Cons.IH [of True] Cons.IH [of False]
    by (cases x) (auto simp: Bytecode_iter_from_Cons)
qed

lemma Bytecode_iter_None:
  assumes "Bytecode_iter es = (ys, None)"
  shows "ys = es"
  using assms Bytecode_iter_from_prefix [of es False]
  by (auto simp: Bytecode_iter_eq_from)

lemma Bytecode_iter_from_raises:
  "snd (Bytecode_iter_from seen es) = Some e \<Longrightarrow> e = RuntimeError \<or> (\<exists>n. e = ValueError n)"
proof (induction es arbitrary: seen)
  case Nil
  then show ?case by simp
next
  case (Cons x xs)
  then show ?case
    by (cases x) (auto simp: Bytecode_iter_from_Cons split: if_splits)
qed

lemma Bytecode_iter_from_filter:
  "Bytecode_iter_from seen es = (es, None) \<Longrightarrow>
   Bytecode_iter_from seen (filter (\<lambda>e. \<not> is_SetLineno e) es) =
     (filter (\<lambda>e. \<not> is_SetLineno e) es, None)"
proof (induction es arbitrary: seen)
  case Nil
  then show ?case by simp
next
  case (Cons x xs)
  then show ?case
    by (cases x) (auto simp: Bytecode_iter_from_Cons split: if_splits)
qed

text \<open>
  Claim C4. Iterating a container raises the nesting violation (RuntimeError) exactly when
  the iteration reaches a \<^verbatim>\<open>TryBegin\<close> at some position \<open>k\<close> while \<^verbatim>\<open>seen_try_begin\<close> is
  true, that is, after the entries before \<open>k\<close> were yielded without an exception and left
  the flag set; a \<^verbatim>\<open>TryEnd\<close> clears the flag whatever its value was. The stream
  [Begin, Begin, End, End] raises at the second Begin, after it yielded the first;
  [Begin, End, Begin, End] is yielded whole; an End with no Begin before it is yielded
  without an exception.
\<close>

theorem nesting_violation_exactly:
  "(snd (Bytecode_iter es) = Some RuntimeError \<longleftrightarrow>
      (\<exists>k<length es. (\<exists>t. es ! k = TryBegin t) \<and> seen_try_begin False (take k es) \<and>
         Bytecode_iter (take k es) = (take k es, None))) \<and>
   seen_try_begin seen (TryEnd t # xs) = seen_try_begin False xs \<and>
   iter_loop seen (TryEnd t # xs) = (case iter_loop False xs of (ys, r) \<Rightarrow> (TryEnd t # ys, r)) \<and>
   Bytecode_iter [TryBegin 0, TryBegin 1, TryEnd 1, TryEnd 0] = ([TryBegin 0], Some RuntimeError) \<and>
   Bytecode_iter [TryBegin 0, TryEnd 0, TryBegin 1, TryEnd 1] =
     ([TryBegin 0, TryEnd 0, TryBegin 1, TryEnd 1], None) \<and>
   Bytecode_iter [TryEnd 0] = ([TryEnd 0], None)"
proof -
  have "snd (Bytecode_iter es) = Some RuntimeError \<longleftrightarrow>
      (\<exists>k<length es. (\<exists>t. es ! k = TryBegin t) \<and> seen_try_begin False (take k es) \<and>
         Bytecode_iter (take k es) = (take k es, None))"
    unfolding Bytecode_iter_eq_from by (rule Bytecode_iter_from_RuntimeError)
  moreover have "Bytecode_iter [TryBegin 0, TryBegin 1, TryEnd 1, TryEnd 0] =
      ([TryBegin 0], Some RuntimeError)"
    by (simp add: Bytecode_iter_def)
  moreover have "Bytecode_iter [TryBegin 0, TryEnd 0, TryBegin 1, TryEnd 1] =
      ([TryBegin 0, TryEnd 0, TryBegin 1, TryEnd 1], None)"
    by (simp add: Bytecode_iter_def)
  moreover have "Bytecode_iter [TryEnd 0] = ([TryEnd 0], None)"
    by (simp add: Bytecode_iter_def)
  ultimately show ?thesis by simp
qed

section \<open>Legalization\<close>

lemma legalize_loop_snoc:
  "legalize_loop pos (xs @ [x]) st = legalize_body (pos + length xs) x (legalize_loop pos xs st)"
  by (induction xs arbitrary: pos st) simp_all

lemma lineno_pos_body:
  "lineno_pos (legalize_body p x st) = lineno_pos st @ (if is_SetLineno x then [p] else [])"
  by (cases x) (simp_all split: option.splits)

lemma del_items_append:
  "del_items qs xs = (None, zs) \<Longrightarrow> del_items qs (xs @ ys) = (None, zs @ ys)"
proof (induction qs arbitrary: xs)
  case Nil
  then show ?case by simp
next
  case (Cons i qs)
  from Cons.prems have i: "i < length xs"
    and d: "del_items qs (take i xs @ drop (Suc i) xs) = (None, zs)"
    by (auto split: if_splits)
  from Cons.IH [OF d] show ?case using i by simp
qed

text \<open>
  The second loop never raises: it deletes the positions of the line markers, last first,
  and what stays is the list without its line markers.
\<close>

lemma del_items_lineno_pos:
  "lineno_pos st = [] \<Longrightarrow>
   del_items (rev (lineno_pos (legalize_loop 0 xs st))) xs =
     (None, filter (\<lambda>e. \<not> is_SetLineno e) xs)"
proof (induction xs rule: rev_induct)
  case Nil
  then show ?case by simp
next
  case (snoc x xs)
  then show ?case
    by (simp add: legalize_loop_snoc lineno_pos_body del_items_append)
qed

text \<open>What the first loop does to the instruction objects.\<close>

lemma legalize_body_frame:
  "Instr a \<noteq> x \<Longrightarrow> ls_instrs (legalize_body p x st) a = ls_instrs st a"
  by (cases x) (simp_all split: option.splits)

lemma legalize_loop_frame:
  "Instr a \<notin> set xs \<Longrightarrow> ls_instrs (legalize_loop p xs st) a = ls_instrs st a"
  by (induction xs arbitrary: p st) (auto simp: legalize_body_frame)

lemma legalize_body_only_lineno:
  "(ls_instrs (legalize_body p x st) a)\<lparr>instr_lineno := v\<rparr> =
   (ls_instrs st a)\<lparr>instr_lineno := v\<rparr>"
  by (cases x) (simp_all split: option.splits)

lemma legalize_loop_only_lineno:
  "(ls_instrs (legalize_loop p xs st) a)\<lparr>instr_lineno := v\<rparr> =
   (ls_instrs st a)\<lparr>instr_lineno := v\<rparr>"
  by (induction xs arbitrary: p st) (simp_all add: legalize_body_only_lineno)

lemma current_lineno_body:
  "current_lineno st \<noteq> UNSET \<Longrightarrow> current_lineno (legalize_body p x st) \<noteq> UNSET"
  by (cases x) (simp_all split: option.splits)

lemma legalize_body_set:
  "current_lineno st \<noteq> UNSET \<Longrightarrow>
   instr_lineno (ls_instrs (legalize_body p (Instr a) st) a) \<noteq> UNSET"
  by (simp split: option.splits)

lemma legalize_body_keeps_set:
  "current_lineno st \<noteq> UNSET \<Longrightarrow> instr_lineno (ls_instrs st a) \<noteq> UNSET \<Longrightarrow>
   instr_lineno (ls_instrs (legalize_body p x st) a) \<noteq> UNSET"
  by (cases x) (simp_all split: option.splits)

lemma legalize_loop_keeps_set:
  "current_lineno st \<noteq> UNSET \<Longrightarrow> instr_lineno (ls_instrs st a) \<noteq> UNSET \<Longrightarrow>
   instr_lineno (ls_instrs (legalize_loop p xs st) a) \<noteq> UNSET"
  by (induction xs arbitrary: p st) (simp_all add: legalize_body_keeps_set current_lineno_body)

lemma legalize_loop_sets:
  "current_lineno st \<noteq> UNSET \<Longrightarrow> Instr a \<in> set xs \<Longrightarrow>
   instr_lineno (ls_instrs (legalize_loop p xs st) a) \<noteq> UNSET"
proof (induction xs arbitrary: p st)
  case Nil
  then show ?case by simp
next
  case (Cons x xs)
  show ?case
  proof (cases "x = Instr a")
    case True
    then show ?thesis
      using Cons.prems(1)
      by (simp add: legalize_loop_keeps_set current_lineno_body legalize_body_set
          del: legalize_body.simps)
  next
    case False
    then show ?thesis
      using Cons by (simp add: current_lineno_body del: legalize_body.simps)
  qed
qed

text \<open>
  Without a line marker and without an unset line the first loop changes no object and
  records no position.
\<close>

lemma legalize_loop_noop:
  "set_lineno st = None \<Longrightarrow> \<forall>e\<in>set xs. \<not> is_SetLineno e \<Longrightarrow>
   \<forall>a. Instr a \<in> set xs \<longrightarrow> instr_lineno (ls_instrs st a) \<noteq> UNSET \<Longrightarrow>
   ls_instrs (legalize_loop p xs st) = ls_instrs st \<and>
   lineno_pos (legalize_loop p xs st) = lineno_pos st"
proof (induction xs arbitrary: p st)
  case Nil
  then show ?case by simp
next
  case (Cons x xs)
  show ?case
  proof (cases x)
    case (Instr a)
    then show ?thesis using Cons.prems Cons.IH [of "legalize_body p x st" "Suc p"] by simp
  next
    case (SetLineno n)
    then show ?thesis using Cons.prems by simp
  qed (use Cons in simp_all)
qed

lemma legalize_returns:
  "legalize h C = (None, h1, C1) \<longleftrightarrow>
     Bytecode_iter (entries C) = (entries C, None) \<and>
     h1 = h\<lparr>instrs := ls_instrs (legalize_loop 0 (entries C)
             \<lparr>ls_instrs = instrs h, set_lineno = None,
              current_lineno = Line (first_lineno C), lineno_pos = []\<rparr>)\<rparr> \<and>
     C1 = C\<lparr>entries := filter (\<lambda>e. \<not> is_SetLineno e) (entries C)\<rparr>"
proof -
  obtain ys r where it: "Bytecode_iter (entries C) = (ys, r)"
    by (cases "Bytecode_iter (entries C)")
  show ?thesis
  proof (cases r)
    case None
    with it have ys: "ys = entries C"
      by (simp add: Bytecode_iter_None)
    show ?thesis
      using it None ys
      by (auto simp: legalize_def Let_def del_items_lineno_pos)
  next
    case (Some e)
    then show ?thesis using it by (auto simp: legalize_def Let_def)
  qed
qed

lemma legalize_Some:
  "legalize h C = (Some e, h1, C1) \<longleftrightarrow>
     snd (Bytecode_iter (entries C)) = Some e \<and>
     h1 = h\<lparr>instrs := ls_instrs (legalize_loop 0 (fst (Bytecode_iter (entries C)))
             \<lparr>ls_instrs = instrs h, set_lineno = None,
              current_lineno = Line (first_lineno C), lineno_pos = []\<rparr>)\<rparr> \<and>
     C1 = C"
proof -
  obtain ys r where it: "Bytecode_iter (entries C) = (ys, r)"
    by (cases "Bytecode_iter (entries C)")
  show ?thesis
  proof (cases r)
    case None
    with it have ys: "ys = entries C"
      by (simp add: Bytecode_iter_None)
    show ?thesis
      using it None ys
      by (auto simp: legalize_def Let_def del_items_lineno_pos)
  next
    case (Some e')
    then show ?thesis using it by (auto simp: legalize_def Let_def)
  qed
qed

text \<open>
  Claim C3. For a container whose entries are a line marker 5, an instruction \<open>a\<close>, a line
  marker 9 and the instructions \<open>b\<close> and \<open>c\<close>, three different objects, \<^verbatim>\<open>legalize\<close> returns
  without an exception, the entries left are the three instructions, no line marker stays,
  and the lines of \<open>a\<close>, \<open>b\<close>, \<open>c\<close> are 5, 9 and 9; nothing else of the heap or of the
  container changes. The markers decide the lines, so this holds for any first line number
  and any lines the instructions carried: with first line 1 and unset lines in particular,
  which is the instance evaluated next.
\<close>

theorem marker_collapse:
  assumes "distinct [a, b, c]"
    and "entries C = [SetLineno 5, Instr a, SetLineno 9, Instr b, Instr c]"
  shows "legalize h C =
    (None,
     h\<lparr>instrs := (instrs h)
        (a := (instrs h a)\<lparr>instr_lineno := Line 5\<rparr>,
         b := (instrs h b)\<lparr>instr_lineno := Line 9\<rparr>,
         c := (instrs h c)\<lparr>instr_lineno := Line 9\<rparr>)\<rparr>,
     C\<lparr>entries := [Instr a, Instr b, Instr c]\<rparr>)"
  using assms by (simp add: legalize_def Bytecode_iter_def)

theorem marker_collapse_witness:
  "distinct [0::nat, 1, 2] \<and>
   first_lineno (bytecode0 [SetLineno 5, Instr 0, SetLineno 9, Instr 1, Instr 2]) = 1 \<and>
   instr_objects heap0 [SetLineno 5, Instr 0, SetLineno 9, Instr 1, Instr 2] =
     [fresh_instr ''A'', fresh_instr ''B'', fresh_instr ''C''] \<and>
   fst (legalize heap0 (bytecode0 [SetLineno 5, Instr 0, SetLineno 9, Instr 1, Instr 2])) = None \<and>
   entries (snd (snd (legalize heap0
       (bytecode0 [SetLineno 5, Instr 0, SetLineno 9, Instr 1, Instr 2])))) =
     [Instr 0, Instr 1, Instr 2] \<and>
   instr_objects
     (fst (snd (legalize heap0 (bytecode0 [SetLineno 5, Instr 0, SetLineno 9, Instr 1, Instr 2]))))
     [Instr 0, Instr 1, Instr 2] =
     [(fresh_instr ''A'')\<lparr>instr_lineno := Line 5\<rparr>,
      (fresh_instr ''B'')\<lparr>instr_lineno := Line 9\<rparr>,
      (fresh_instr ''C'')\<lparr>instr_lineno := Line 9\<rparr>]"
  using marker_collapse [of 0 1 2 "bytecode0 [SetLineno 5, Instr 0, SetLineno 9, Instr 1, Instr 2]" heap0]
  by (simp add: bytecode0_def heap0_def)

text \<open>
  Claim C6. Legalization is idempotent: when \<^verbatim>\<open>legalize\<close> returns without an exception
  and leaves the heap \<open>h1\<close> and the container \<open>C1\<close>, a second \<^verbatim>\<open>legalize\<close> returns without
  an exception too and leaves the same heap (so the same line numbers) and the same
  container (the same entries and the same metadata).
\<close>

theorem legalize_idempotent:
  assumes "legalize h C = (None, h1, C1)"
  shows "legalize h1 C1 = (None, h1, C1)"
proof -
  let ?P = "\<lambda>e. \<not> is_SetLineno e"
  let ?st0 = "\<lparr>ls_instrs = instrs h, set_lineno = None,
               current_lineno = Line (first_lineno C), lineno_pos = []\<rparr>"
  let ?st = "legalize_loop 0 (entries C) ?st0"
  from assms have it: "Bytecode_iter (entries C) = (entries C, None)"
    and h1: "h1 = h\<lparr>instrs := ls_instrs ?st\<rparr>"
    and C1: "C1 = C\<lparr>entries := filter ?P (entries C)\<rparr>"
    by (simp_all add: legalize_returns)
  have it1: "Bytecode_iter (entries C1) = (entries C1, None)"
    using it by (simp add: C1 Bytecode_iter_eq_from Bytecode_iter_from_filter)
  let ?st1 = "\<lparr>ls_instrs = instrs h1, set_lineno = None,
               current_lineno = Line (first_lineno C1), lineno_pos = []\<rparr>"
  have set: "\<forall>a. Instr a \<in> set (entries C1) \<longrightarrow> instr_lineno (ls_instrs ?st1 a) \<noteq> UNSET"
    by (simp add: h1 C1 legalize_loop_sets)
  have "ls_instrs (legalize_loop 0 (entries C1) ?st1) = ls_instrs ?st1 \<and>
        lineno_pos (legalize_loop 0 (entries C1) ?st1) = lineno_pos ?st1"
    by (rule legalize_loop_noop) (use set in \<open>simp_all add: C1\<close>)
  then have loop: "ls_instrs (legalize_loop 0 (entries C1) ?st1) = instrs h1"
    and pos: "filter ?P (entries C1) = entries C1"
    by (simp_all add: C1)
  show ?thesis
    unfolding legalize_returns using it1 loop pos by simp
qed

theorem legalize_idempotent_witness:
  "fst (legalize heap0 (bytecode0 [SetLineno 5, Instr 0, Label 7, Instr 1])) = None \<and>
   legalize
     (fst (snd (legalize heap0 (bytecode0 [SetLineno 5, Instr 0, Label 7, Instr 1]))))
     (snd (snd (legalize heap0 (bytecode0 [SetLineno 5, Instr 0, Label 7, Instr 1])))) =
   (None,
    fst (snd (legalize heap0 (bytecode0 [SetLineno 5, Instr 0, Label 7, Instr 1]))),
    snd (snd (legalize heap0 (bytecode0 [SetLineno 5, Instr 0, Label 7, Instr 1]))))"
proof -
  let ?r = "legalize heap0 (bytecode0 [SetLineno 5, Instr 0, Label 7, Instr 1])"
  have none: "fst ?r = None"
    by (simp add: legalize_def Bytecode_iter_def bytecode0_def)
  then have "?r = (None, fst (snd ?r), snd (snd ?r))"
    by (metis prod.collapse)
  from legalize_idempotent [OF this] none show ?thesis by simp
qed

text \<open>
  Claim C9, as amended. When \<^verbatim>\<open>legalize\<close> raises, the exception is the one that ends the
  iteration (a malformed entry or a nesting violation), the container is as it was (no
  entry is deleted, the metadata is unchanged), the lists of names are as they were, and
  of the instruction objects only the line numbers may differ, and only for the objects
  that stand before the offending entry: the first loop has already assigned those.
\<close>

theorem legalize_raises:
  assumes "legalize h C = (Some e, h1, C1)"
  shows "C1 = C \<and> lists h1 = lists h \<and> next_list h1 = next_list h \<and>
         snd (Bytecode_iter (entries C)) = Some e \<and>
         (\<forall>a. (instrs h1 a)\<lparr>instr_lineno := instr_lineno (instrs h a)\<rparr> = instrs h a) \<and>
         (\<forall>a. Instr a \<notin> set (fst (Bytecode_iter (entries C))) \<longrightarrow> instrs h1 a = instrs h a)"
proof -
  have only: "(ls_instrs (legalize_loop p xs
        \<lparr>ls_instrs = instrs h, set_lineno = s, current_lineno = l, lineno_pos = q\<rparr>) a)
        \<lparr>instr_lineno := instr_lineno (instrs h a)\<rparr> = instrs h a" for p xs s l q a
    using legalize_loop_only_lineno [where v = "instr_lineno (instrs h a)" and a = a and p = p
        and xs = xs
        and st = "\<lparr>ls_instrs = instrs h, set_lineno = s, current_lineno = l, lineno_pos = q\<rparr>"]
    by simp
  show ?thesis
    using assms by (simp add: legalize_Some legalize_loop_frame only)
qed

theorem legalize_raises_witness:
  "fst (legalize heap0 (bytecode0 [Instr 0, TryBegin 0, TryBegin 1, SetLineno 4, Instr 1])) =
     Some RuntimeError \<and>
   snd (snd (legalize heap0 (bytecode0 [Instr 0, TryBegin 0, TryBegin 1, SetLineno 4, Instr 1]))) =
     bytecode0 [Instr 0, TryBegin 0, TryBegin 1, SetLineno 4, Instr 1] \<and>
   fst (Bytecode_iter [Instr 0, TryBegin 0, TryBegin 1, SetLineno 4, Instr 1]) =
     [Instr 0, TryBegin 0] \<and>
   instrs (fst (snd (legalize heap0
       (bytecode0 [Instr 0, TryBegin 0, TryBegin 1, SetLineno 4, Instr 1])))) 1 = instrs heap0 1"
proof -
  let ?C = "bytecode0 [Instr 0, TryBegin 0, TryBegin 1, SetLineno 4, Instr 1]"
  let ?r = "legalize heap0 ?C"
  have err: "fst ?r = Some RuntimeError"
    by (simp add: legalize_def Bytecode_iter_def bytecode0_def)
  then have "?r = (Some RuntimeError, fst (snd ?r), snd (snd ?r))"
    by (metis prod.collapse)
  from legalize_raises [OF this] err show ?thesis
    by (simp add: bytecode0_def Bytecode_iter_def)
qed

text \<open>
  Claim C9, as stated, fails: for the entries [A, Begin, Begin] with first line 1,
  \<^verbatim>\<open>legalize\<close> raises the nesting violation at the second Begin, and the line of \<^verbatim>\<open>A\<close>,
  unset before the call, is 1 after it.
\<close>

theorem legalize_partial:
  "fst (legalize heap0 (bytecode0 [Instr 0, TryBegin 0, TryBegin 1])) = Some RuntimeError \<and>
   instr_lineno (instrs heap0 0) = UNSET \<and>
   instr_lineno (instrs (fst (snd (legalize heap0 (bytecode0 [Instr 0, TryBegin 0, TryBegin 1])))) 0)
     = Line 1"
  by (simp add: legalize_def Bytecode_iter_def heap0_def bytecode0_def fresh_instr_def)

section \<open>The comparison normalizer\<close>

lemma dom_labels_body:
  "dom (labels (flat_body h i x st)) = dom (labels st) \<union> {l. x = Label l}"
  by (cases x) (auto split: arg.splits)

lemma dom_labels_loop:
  "dom (labels (flat_loop h i xs st)) = dom (labels st) \<union> {l. Label l \<in> set xs}"
  by (induction xs arbitrary: i st) (auto simp: dom_labels_body)

lemma jumps_body:
  "fst ` set (jumps (flat_body h i x st)) = fst ` set (jumps st) \<union>
     {l. \<exists>a. x = Instr a \<and> instr_arg (instrs h a) = ArgLabel l}"
  by (cases x) (auto split: arg.splits)

lemma jumps_loop:
  "fst ` set (jumps (flat_loop h i xs st)) = fst ` set (jumps st) \<union>
     {l. \<exists>a. Instr a \<in> set xs \<and> instr_arg (instrs h a) = ArgLabel l}"
  by (induction xs arbitrary: i st) (auto simp: jumps_body)

lemma resolve_jumps_unresolved:
  "\<exists>t\<in>fst ` set js. lbls t = None \<Longrightarrow>
   \<exists>t. resolve_jumps lbls js ins = Inl (KeyError t) \<and> lbls t = None \<and> t \<in> fst ` set js"
proof (induction js arbitrary: ins)
  case Nil
  then show ?case by simp
next
  case (Cons j js)
  obtain t k where j: "j = (t, k)" by (cases j)
  show ?case
  proof (cases "lbls t")
    case None
    then show ?thesis by (auto simp: j)
  next
    case (Some v)
    with Cons.prems have "\<exists>t\<in>fst ` set js. lbls t = None" by (auto simp: j)
    from Cons.IH [OF this] show ?thesis using Some by (auto simp: j)
  qed
qed

lemma flat_unresolved:
  assumes "Instr a \<in> set es" and "instr_arg (instrs h a) = ArgLabel l"
    and "Label l \<notin> set es" and "iter es = (es, None)"
  shows "\<exists>t. flat iter h es = Inl (KeyError t) \<and> Label t \<notin> set es"
proof -
  let ?st = "flat_loop h 0 es \<lparr>instructions = [], labels = Map.empty, jumps = [], offset = 0\<rparr>"
  have d: "dom (labels ?st) = {l. Label l \<in> set es}"
    by (simp add: dom_labels_loop)
  have "l \<in> fst ` set (jumps ?st)"
    using assms(1,2) by (auto simp: jumps_loop)
  moreover have "labels ?st l = None"
    using d assms(3) by (auto simp: dom_def)
  ultimately have "\<exists>t\<in>fst ` set (jumps ?st). labels ?st t = None" by blast
  from resolve_jumps_unresolved [OF this, of "instructions ?st"]
  obtain t where r: "resolve_jumps (labels ?st) (jumps ?st) (instructions ?st) = Inl (KeyError t)"
    and n: "labels ?st t = None" by blast
  from n have "t \<notin> dom (labels ?st)" by (simp add: domIff)
  then have "Label t \<notin> set es" unfolding d by simp
  with r show ?thesis using assms(4) by (simp add: flat_def)
qed

lemma flat_raised:
  "snd (iter es) = Some e \<Longrightarrow> flat iter h es = Inl e"
  by (cases "iter es") (simp add: flat_def)

text \<open>The renaming of labels is a simulation of the two loops.\<close>

lemma rename_instr_simps [simp]:
  "instr_name (rename_instr f i) = instr_name i"
  "instr_location (rename_instr f i) = instr_location i"
  "instr_lineno (rename_instr f i) = instr_lineno i"
  "instr_arg i = ArgLabel l \<Longrightarrow> instr_arg (rename_instr f i) = ArgLabel (f l)"
  "\<forall>l. instr_arg i \<noteq> ArgLabel l \<Longrightarrow> rename_instr f i = i"
  by (auto simp: rename_instr_def split: arg.splits)

lemma flat_body_sim:
  assumes "renamed h f x y" and "inj_on f L" and "set (entry_labels h x) \<subseteq> L"
    and "flat_sim f L st st2"
  shows "flat_sim f L (flat_body h i x st) (flat_body h i y st2)"
proof (cases x)
  case (Label l)
  then have y: "y = Label (f l)" and l: "l \<in> L" using assms(1,3) by simp_all
  have "labels st2 (f l') = labels st l' \<Longrightarrow> l' \<in> L \<Longrightarrow>
        ((labels st2)(f l \<mapsto> v)) (f l') = ((labels st)(l \<mapsto> v)) l'" for l' v
    using assms(2) l by (auto simp: inj_on_def)
  then show ?thesis
    using assms(4) by (simp add: Label y flat_sim_def)
next
  case (Instr a)
  then obtain a' where y: "y = Instr a'" and i: "instrs h a' = rename_instr f (instrs h a)"
    using assms(1) by (auto split: entry.splits)
  show ?thesis
  proof (cases "\<exists>l. instr_arg (instrs h a) = ArgLabel l")
    case True
    then obtain l where l: "instr_arg (instrs h a) = ArgLabel l" by blast
    then show ?thesis
      using assms(4) by (simp add: Instr y i flat_sim_def)
  next
    case False
    then have "rename_instr f (instrs h a) = instrs h a" by simp
    then show ?thesis
      using assms(4) False by (auto simp: Instr y i flat_sim_def split: arg.splits)
  qed
qed (use assms in \<open>simp_all add: flat_sim_def\<close>)

lemma flat_loop_sim:
  assumes "list_all2 (renamed h f) xs ys" and "inj_on f L" and "set (labels_of h xs) \<subseteq> L"
    and "flat_sim f L st st2"
  shows "flat_sim f L (flat_loop h i xs st) (flat_loop h i ys st2)"
  using assms
proof (induction xs ys arbitrary: i st st2 rule: list_all2_induct)
  case Nil
  then show ?case by simp
next
  case (Cons x xs y ys)
  have "flat_sim f L (flat_body h i x st) (flat_body h i y st2)"
    using Cons.hyps(1) Cons.prems by (intro flat_body_sim) (simp_all add: labels_of_def)
  then show ?case
    using Cons.prems by (simp add: Cons.IH labels_of_def)
qed

lemma resolve_jumps_sim:
  "\<forall>l\<in>L. lbls' (f l) = lbls l \<Longrightarrow> fst ` set js \<subseteq> L \<Longrightarrow>
   resolve_jumps lbls js ins = Inr out \<Longrightarrow>
   resolve_jumps lbls' (map (\<lambda>(t, k). (f t, k)) js) ins = Inr out"
proof (induction js arbitrary: ins)
  case Nil
  then show ?case by simp
next
  case (Cons j js)
  obtain t k where j: "j = (t, k)" by (cases j)
  from Cons.prems show ?case
    by (auto simp: j Cons.IH split: option.splits)
qed

lemma Bytecode_iter_from_renamed:
  "list_all2 (renamed h f) xs ys \<Longrightarrow> Bytecode_iter_from seen xs = (xs, None) \<Longrightarrow>
   Bytecode_iter_from seen ys = (ys, None)"
proof (induction xs ys arbitrary: seen rule: list_all2_induct)
  case Nil
  then show ?case by simp
next
  case (Cons x xs y ys)
  then show ?case
    by (cases x) (auto simp: Bytecode_iter_from_Cons split: if_splits entry.splits)
qed

lemma flat_Inr:
  "flat Bytecode_iter h es = Inr out \<longleftrightarrow>
     Bytecode_iter es = (es, None) \<and>
     (let st = flat_loop h 0 es \<lparr>instructions = [], labels = Map.empty, jumps = [], offset = 0\<rparr>
      in resolve_jumps (labels st) (jumps st) (instructions st) = Inr out)"
proof -
  obtain ys r where it: "Bytecode_iter es = (ys, r)" by (cases "Bytecode_iter es")
  show ?thesis
  proof (cases r)
    case None
    with it have "ys = es" by (simp add: Bytecode_iter_None)
    then show ?thesis using it None by (simp add: flat_def Let_def)
  next
    case (Some e)
    then show ?thesis using it by (simp add: flat_def)
  qed
qed

lemma flat_renamed:
  assumes "inj_on f (set (labels_of h es))"
    and "list_all2 (renamed h f) es es2"
    and "flat Bytecode_iter h es = Inr out"
  shows "flat Bytecode_iter h es2 = Inr out"
proof -
  let ?L = "set (labels_of h es)"
  let ?init = "\<lparr>instructions = [], labels = Map.empty, jumps = [], offset = 0\<rparr> :: flat_state"
  let ?sa = "flat_loop h 0 es ?init"
  let ?sb = "flat_loop h 0 es2 ?init"
  from assms(3) have it: "Bytecode_iter es = (es, None)"
    and res: "resolve_jumps (labels ?sa) (jumps ?sa) (instructions ?sa) = Inr out"
    by (simp_all add: flat_Inr Let_def)
  have it2: "Bytecode_iter es2 = (es2, None)"
    using Bytecode_iter_from_renamed [OF assms(2)] it by (simp add: Bytecode_iter_eq_from)
  have "flat_sim f ?L ?init ?init" by (simp add: flat_sim_def)
  with assms(1,2) have sim: "flat_sim f ?L ?sa ?sb"
    by (intro flat_loop_sim) simp_all
  from sim have a: "instructions ?sb = instructions ?sa"
    and b: "jumps ?sb = map (\<lambda>(t, k). (f t, k)) (jumps ?sa)"
    and c: "\<forall>l\<in>?L. labels ?sb (f l) = labels ?sa l"
    by (simp_all add: flat_sim_def)
  have sub: "fst ` set (jumps ?sa) \<subseteq> ?L"
    by (auto simp: jumps_loop labels_of_def intro!: bexI)
  have "resolve_jumps (labels ?sb) (map (\<lambda>(t, k). (f t, k)) (jumps ?sa)) (instructions ?sa) =
      Inr out"
    by (rule resolve_jumps_sim [where f = f and L = ?L and lbls = "labels ?sa", OF c sub res])
  then have "resolve_jumps (labels ?sb) (jumps ?sb) (instructions ?sb) = Inr out"
    by (simp only: a b)
  with it2 show ?thesis by (simp add: flat_Inr Let_def)
qed

section \<open>Equality\<close>

text \<open>Evaluation of the example objects.\<close>

lemma heap0_simps [simp]:
  "instrs heap0 0 = fresh_instr ''A''"
  "instrs heap0 (Suc 0) = fresh_instr ''B''"
  "instrs heap0 2 = fresh_instr ''C''"
  "instrs heap0 3 = jump_instr 7"
  "instrs heap0 4 = jump_instr 8"
  "lists heap0 r = []"
  "next_list heap0 = 3"
  by (simp_all add: heap0_def)

lemma bytecode0_simps [simp]:
  "entries (bytecode0 es) = es"
  "first_lineno (bytecode0 es) = 1"
  "cellvars (bytecode0 es) = 0"
  "freevars (bytecode0 es) = 1"
  "argnames (bytecode0 es) = 2"
  by (simp_all add: bytecode0_def)

lemma example_instr_simps [simp]:
  "instr_arg (jump_instr l) = ArgLabel l"
  "instr_name (jump_instr l) = ''JUMP''"
  "instr_location (jump_instr l) = None"
  "instr_arg (fresh_instr n) = ArgUnset"
  "instr_lineno (fresh_instr n) = UNSET"
  "rename_instr f (jump_instr l) = jump_instr (f l)"
  by (simp_all add: jump_instr_def fresh_instr_def rename_instr_def)

lemma flat_instrs_cong:
  "instrs h' = instrs h \<Longrightarrow> flat iter h' es = flat iter h es"
proof -
  assume a: "instrs h' = instrs h"
  have b: "flat_body h' i x st = flat_body h i x st" for i x st
    by (cases x) (simp_all add: a split: arg.splits)
  have "flat_loop h' i xs st = flat_loop h i xs st" for i xs st
    by (induction xs arbitrary: i st) (simp_all add: b)
  then show ?thesis by (simp add: flat_def)
qed

lemma Bytecode_eq_same_entries:
  "entries b = entries a \<Longrightarrow>
   Bytecode_eq h a (PyBytecode b) =
     (case flat Bytecode_iter h (entries a) of Inl e \<Rightarrow> Inl e | Inr out \<Rightarrow> Inr True)"
  by (simp add: Bytecode_eq_def InstrList_eq_def flat_equal_def split: sum.splits)

text \<open>
  Claim C2, as amended. Let the normalizer succeed on the container \<open>C\<close> (every entry is
  valid, no region is opened inside another, every label an instruction refers to stands in
  the list), and let \<open>C2\<close> be \<open>C\<close> with its labels renamed by a function \<open>f\<close> that is
  injective on the labels of \<open>C\<close>, as a renaming to fresh identities is: label entries at
  the same positions, instructions that refer to the renamed labels, everything else the
  same. Then \<^verbatim>\<open>C == C2\<close> returns true.
\<close>

theorem label_renaming_equal:
  assumes "inj_on f (set (labels_of h (entries C)))"
    and "list_all2 (renamed h f) (entries C) (entries C2)"
    and "flat Bytecode_iter h (entries C) = Inr out"
  shows "Bytecode_eq h C (PyBytecode C2) = Inr True"
  using flat_renamed [OF assms] assms(3)
  by (simp add: Bytecode_eq_def InstrList_eq_def flat_equal_def)

theorem label_renaming_equal_witness:
  "inj_on (\<lambda>l. if l = 7 then 8 else l) (set (labels_of heap0 (entries (bytecode0 [Label 7, Instr 3, Instr 0])))) \<and>
   list_all2 (renamed heap0 (\<lambda>l. if l = 7 then 8 else l))
     (entries (bytecode0 [Label 7, Instr 3, Instr 0])) (entries (bytecode0 [Label 8, Instr 4, Instr 0])) \<and>
   flat Bytecode_iter heap0 (entries (bytecode0 [Label 7, Instr 3, Instr 0])) =
     Inr [Placeholder 0, ConcreteInstr ''JUMP'' 0 None, InstrObject (fresh_instr ''A'')] \<and>
   Bytecode_eq heap0 (bytecode0 [Label 7, Instr 3, Instr 0])
     (PyBytecode (bytecode0 [Label 8, Instr 4, Instr 0])) = Inr True"
proof -
  let ?f = "\<lambda>l::label. if l = 7 then 8 else l"
  let ?C = "bytecode0 [Label 7, Instr 3, Instr 0]"
  let ?D = "bytecode0 [Label 8, Instr 4, Instr 0]"
  have a: "inj_on ?f (set (labels_of heap0 (entries ?C)))"
    by (simp add: labels_of_def)
  have b: "list_all2 (renamed heap0 ?f) (entries ?C) (entries ?D)"
    by (simp add: rename_instr_def fresh_instr_def jump_instr_def)
  have c: "flat Bytecode_iter heap0 (entries ?C) =
      Inr [Placeholder 0, ConcreteInstr ''JUMP'' 0 None, InstrObject (fresh_instr ''A'')]"
    by (simp add: flat_def Bytecode_iter_def)
  from label_renaming_equal [OF a b c] a b c show ?thesis by blast
qed

text \<open>
  Claim C2, as stated for every container, fails: a container that holds only a jump to a
  label which stands nowhere in it, and the renamed container, do not compare equal; the
  comparison raises KeyError.
\<close>

theorem label_renaming_unresolved:
  "inj_on (\<lambda>l. if l = 7 then 8 else l) (set (labels_of heap0 (entries (bytecode0 [Instr 3])))) \<and>
   list_all2 (renamed heap0 (\<lambda>l. if l = 7 then 8 else l))
     (entries (bytecode0 [Instr 3])) (entries (bytecode0 [Instr 4])) \<and>
   Bytecode_eq heap0 (bytecode0 [Instr 3]) (PyBytecode (bytecode0 [Instr 4])) = Inl (KeyError 7)"
  by (simp add: labels_of_def Bytecode_eq_def InstrList_eq_def flat_equal_def flat_def
      Bytecode_iter_def rename_instr_def jump_instr_def)

text \<open>
  Claim C5, as amended. If a container holds an instruction whose argument is a label that
  is no entry of the container, the normalizer raises, and so does the equality it is
  called from; no offset is made up for the label. When the traversal of the entries ends
  without an exception, the exception is the KeyError of a label that is no entry;
  otherwise it is the exception of the traversal (a malformed entry or a nesting
  violation), raised before the second loop looks a label up.
\<close>

theorem unresolved_label_raises:
  assumes "Instr a \<in> set (entries C)" and "instr_arg (instrs h a) = ArgLabel l"
    and "Label l \<notin> set (entries C)"
  shows "\<exists>e. flat Bytecode_iter h (entries C) = Inl e \<and>
             Bytecode_eq h C (PyBytecode b) = Inl e \<and>
             (case snd (Bytecode_iter (entries C)) of
                Some e' \<Rightarrow> e = e'
              | None \<Rightarrow> \<exists>t. e = KeyError t \<and> Label t \<notin> set (entries C))"
proof (cases "snd (Bytecode_iter (entries C))")
  case None
  then have "Bytecode_iter (entries C) = (entries C, None)"
    using Bytecode_iter_None [of "entries C" "fst (Bytecode_iter (entries C))"]
    by (metis prod.collapse)
  from flat_unresolved [where iter = Bytecode_iter, OF assms this]
  obtain t where "flat Bytecode_iter h (entries C) = Inl (KeyError t)"
    and "Label t \<notin> set (entries C)" by blast
  then show ?thesis
    using None by (simp add: Bytecode_eq_def InstrList_eq_def flat_equal_def)
next
  case (Some e)
  then have "flat Bytecode_iter h (entries C) = Inl e" by (rule flat_raised)
  then show ?thesis
    using Some by (simp add: Bytecode_eq_def InstrList_eq_def flat_equal_def)
qed

theorem unresolved_label_raises_witness:
  "Instr 3 \<in> set (entries (bytecode0 [Instr 0, Instr 3])) \<and>
   instr_arg (instrs heap0 3) = ArgLabel 7 \<and>
   Label 7 \<notin> set (entries (bytecode0 [Instr 0, Instr 3])) \<and>
   snd (Bytecode_iter (entries (bytecode0 [Instr 0, Instr 3]))) = None \<and>
   (\<exists>t. flat Bytecode_iter heap0 (entries (bytecode0 [Instr 0, Instr 3])) = Inl (KeyError t) \<and>
        Bytecode_eq heap0 (bytecode0 [Instr 0, Instr 3]) (PyBytecode (bytecode0 [])) =
          Inl (KeyError t))"
proof -
  let ?C = "bytecode0 [Instr 0, Instr 3]"
  have a: "Instr 3 \<in> set (entries ?C)" by simp
  have b: "instr_arg (instrs heap0 3) = ArgLabel 7" by simp
  have c: "Label 7 \<notin> set (entries ?C)" by simp
  have d: "snd (Bytecode_iter (entries ?C)) = None" by (simp add: Bytecode_iter_def)
  from unresolved_label_raises [OF a b c, of "bytecode0 []"] d
  have "\<exists>t. flat Bytecode_iter heap0 (entries ?C) = Inl (KeyError t) \<and>
        Bytecode_eq heap0 ?C (PyBytecode (bytecode0 [])) = Inl (KeyError t)"
    by auto
  with a b c d show ?thesis by blast
qed

text \<open>
  Claim C5, as stated, fails: when the container also opens a region inside another, the
  normalizer raises the nesting violation and not the unresolved-label error.
\<close>

theorem unresolved_label_other_error:
  "Instr 3 \<in> set (entries (bytecode0 [Instr 3, TryBegin 0, TryBegin 1])) \<and>
   instr_arg (instrs heap0 3) = ArgLabel 7 \<and>
   Label 7 \<notin> set (entries (bytecode0 [Instr 3, TryBegin 0, TryBegin 1])) \<and>
   flat Bytecode_iter heap0 (entries (bytecode0 [Instr 3, TryBegin 0, TryBegin 1])) =
     Inl RuntimeError"
  by (simp add: flat_def Bytecode_iter_def)

text \<open>
  Claim C1 fails on the code. Two containers with the same entries whose names and
  argument counts differ compare equal with \<^verbatim>\<open>==\<close>, which is \<^verbatim>\<open>_InstrList.__eq__\<close>;
  \<^verbatim>\<open>BaseBytecode.__eq__\<close>, which compares the metadata and would return false, is never
  called.
\<close>

theorem eq_ignores_metadata:
  "Bytecode_eq heap0 (bytecode0 [Instr 0]) (PyBytecode ((bytecode0 [Instr 0])\<lparr>name := ''f'', argcount := 2\<rparr>))
     = Inr True \<and>
   (\<forall>cs. BaseBytecode_eq cs heap0 (bytecode0 [Instr 0])
      (PyBytecode ((bytecode0 [Instr 0])\<lparr>name := ''f'', argcount := 2\<rparr>)) = False)"
  by (simp add: Bytecode_eq_def InstrList_eq_def flat_equal_def flat_def Bytecode_iter_def
      BaseBytecode_eq_def bytecode0_def)

text \<open>
  Claim C10 fails on the code. For a right operand of another kind \<^verbatim>\<open>_InstrList.__eq__\<close>
  compares the flattened sequences: an empty \<^verbatim>\<open>Bytecode\<close> equals an empty iterable of any
  type; the comparison raises KeyError when the left operand has an unresolved label, and
  TypeError when the right operand cannot be iterated. \<^verbatim>\<open>BaseBytecode.__eq__\<close>, which
  returns false for another type, is never called.
\<close>

theorem eq_other_kind:
  "Bytecode_eq heap0 (bytecode0 []) (PyIterable []) = Inr True \<and>
   Bytecode_eq heap0 (bytecode0 [Instr 3]) (PyIterable []) = Inl (KeyError 7) \<and>
   Bytecode_eq heap0 (bytecode0 []) PyNotIterable = Inl TypeError \<and>
   (\<forall>cs. BaseBytecode_eq cs heap0 (bytecode0 []) (PyIterable []) = False)"
  by (simp add: Bytecode_eq_def InstrList_eq_def flat_equal_def flat_def Bytecode_iter_def
      list_iter_def BaseBytecode_eq_def)

section \<open>Construction and copy\<close>

lemma check_instrs_Inr: "check_instrs es = Inr u \<longleftrightarrow> (\<forall>n. Foreign n \<notin> set es)"
proof (induction es)
  case Nil
  show ?case by simp
next
  case (Cons x xs)
  then show ?case by (cases x) auto
qed

lemma check_instrs_Inl:
  "check_instrs es = Inl e \<longleftrightarrow>
     (\<exists>xs n ys. es = xs @ Foreign n # ys \<and> (\<forall>m. Foreign m \<notin> set xs) \<and> e = ValueError n)"
proof (induction es)
  case Nil
  show ?case by simp
next
  case (Cons x xs)
  show ?case
  proof (cases "\<exists>n. x = Foreign n")
    case True
    then obtain n where x: "x = Foreign n" by blast
    have "(\<exists>zs m ys. Foreign n # xs = zs @ Foreign m # ys \<and> (\<forall>k. Foreign k \<notin> set zs) \<and>
            e = ValueError m) \<longleftrightarrow> e = ValueError n"
    proof
      assume "\<exists>zs m ys. Foreign n # xs = zs @ Foreign m # ys \<and> (\<forall>k. Foreign k \<notin> set zs) \<and>
            e = ValueError m"
      then obtain zs m ys where eq: "Foreign n # xs = zs @ Foreign m # ys"
        and no: "\<forall>k. Foreign k \<notin> set zs" and e: "e = ValueError m" by blast
      from eq no have "zs = []" by (cases zs) auto
      with eq e show "e = ValueError n" by simp
    next
      assume "e = ValueError n"
      then have "Foreign n # xs = [] @ Foreign n # xs \<and> (\<forall>k. Foreign k \<notin> set []) \<and>
            e = ValueError n" by simp
      then show "\<exists>zs m ys. Foreign n # xs = zs @ Foreign m # ys \<and> (\<forall>k. Foreign k \<notin> set zs) \<and>
            e = ValueError m" by blast
    qed
    then show ?thesis by (auto simp: x)
  next
    case False
    then have c: "check_instrs (x # xs) = check_instrs xs" by (cases x) simp_all
    have "(\<exists>zs m ys. x # xs = zs @ Foreign m # ys \<and> (\<forall>k. Foreign k \<notin> set zs) \<and> e = ValueError m)
        \<longleftrightarrow> (\<exists>zs m ys. xs = zs @ Foreign m # ys \<and> (\<forall>k. Foreign k \<notin> set zs) \<and> e = ValueError m)"
    proof
      assume "\<exists>zs m ys. x # xs = zs @ Foreign m # ys \<and> (\<forall>k. Foreign k \<notin> set zs) \<and> e = ValueError m"
      then obtain zs m ys where eq: "x # xs = zs @ Foreign m # ys"
        and no: "\<forall>k. Foreign k \<notin> set zs" and e: "e = ValueError m" by blast
      from eq False obtain zs' where zs: "zs = x # zs'" by (cases zs) auto
      with eq no e have "xs = zs' @ Foreign m # ys \<and> (\<forall>k. Foreign k \<notin> set zs') \<and> e = ValueError m"
        by auto
      then show "\<exists>zs m ys. xs = zs @ Foreign m # ys \<and> (\<forall>k. Foreign k \<notin> set zs) \<and> e = ValueError m"
        by blast
    next
      assume "\<exists>zs m ys. xs = zs @ Foreign m # ys \<and> (\<forall>k. Foreign k \<notin> set zs) \<and> e = ValueError m"
      then obtain zs m ys where eq: "xs = zs @ Foreign m # ys"
        and no: "\<forall>k. Foreign k \<notin> set zs" and e: "e = ValueError m" by blast
      with False have "x # xs = (x # zs) @ Foreign m # ys \<and> (\<forall>k. Foreign k \<notin> set (x # zs)) \<and>
          e = ValueError m" by auto
      then show "\<exists>zs m ys. x # xs = zs @ Foreign m # ys \<and> (\<forall>k. Foreign k \<notin> set zs) \<and> e = ValueError m"
        by blast
    qed
    with c Cons.IH show ?thesis by simp
  qed
qed

lemma yielded_not_Foreign: "Foreign n \<notin> set (fst (Bytecode_iter_from seen es))"
proof (induction es arbitrary: seen)
  case Nil
  show ?case by simp
next
  case (Cons x xs)
  show ?case
    using Cons.IH [of seen] Cons.IH [of True] Cons.IH [of False]
    by (cases x) (simp_all add: Bytecode_iter_from_Cons)
qed

lemma check_instrs_yielded: "check_instrs (fst (Bytecode_iter es)) = Inr ()"
  using check_instrs_Inr [of "fst (Bytecode_iter es)" "()"]
  by (simp add: Bytecode_iter_eq_from yielded_not_Foreign)

lemma Foreign_raises: "Foreign n \<in> set es \<Longrightarrow> snd (Bytecode_iter es) \<noteq> None"
proof
  assume f: "Foreign n \<in> set es" and "snd (Bytecode_iter es) = None"
  then have "Bytecode_iter es = (fst (Bytecode_iter es), None)"
    by (metis prod.collapse)
  then have "fst (Bytecode_iter es) = es" by (rule Bytecode_iter_None)
  with f have "Foreign n \<in> set (fst (Bytecode_iter_from False es))"
    by (simp add: Bytecode_iter_eq_from)
  then show False by (simp add: yielded_not_Foreign)
qed

lemma Bytecode_init_Inl:
  "Bytecode_init h (PyIterable es) = Inl e \<longleftrightarrow> check_instrs es = Inl e"
  by (simp add: Bytecode_init_def alloc_list_def py_iter_def list_iter_def extend_items_def
      split: sum.splits)

lemma Bytecode_init_Inr:
  "Bytecode_init h (PyIterable es) = Inr (h2, C) \<longleftrightarrow>
     (\<forall>n. Foreign n \<notin> set es) \<and>
     h2 = h\<lparr>lists := (lists h)(next_list h := [], Suc (next_list h) := [],
                              Suc (Suc (next_list h)) := []),
            next_list := Suc (Suc (Suc (next_list h)))\<rparr> \<and>
     C = \<lparr>argcount = 0, posonlyargcount = 0, kwonlyargcount = 0, first_lineno = 1,
          name = ''<module>'', filename = ''<string>'', docstring = DocUnset,
          cellvars = next_list h, freevars = Suc (next_list h), flags = 0,
          argnames = Suc (Suc (next_list h)), entries = es\<rparr>"
proof (cases "check_instrs es")
  case (Inl e)
  then have "\<not> (\<forall>n. Foreign n \<notin> set es)"
    using check_instrs_Inr [of es "()"] by simp
  with Inl show ?thesis
    by (simp add: Bytecode_init_def alloc_list_def py_iter_def list_iter_def)
next
  case (Inr u)
  then have "\<forall>n. Foreign n \<notin> set es"
    using check_instrs_Inr [of es u] by simp
  with Inr show ?thesis
    by (simp add: Bytecode_init_def alloc_list_def py_iter_def list_iter_def extend_items_def)
      blast
qed

lemma Bytecode_init_Bytecode_Inl:
  "Bytecode_init h (PyBytecode b) = Inl e \<longleftrightarrow> snd (Bytecode_iter (entries b)) = Some e"
proof -
  obtain ys r where it: "Bytecode_iter (entries b) = (ys, r)"
    by (cases "Bytecode_iter (entries b)")
  have "check_instrs ys = Inr ()"
    using check_instrs_yielded [of "entries b"] by (simp add: it)
  then show ?thesis
    by (cases r)
      (simp_all add: Bytecode_init_def alloc_list_def py_iter_def extend_items_def it)
qed

lemma Bytecode_init_Bytecode_Inr:
  "Bytecode_init h (PyBytecode b) = Inr (h2, C) \<longleftrightarrow>
     snd (Bytecode_iter (entries b)) = None \<and>
     h2 = h\<lparr>lists := (lists h)(next_list h := [], Suc (next_list h) := [],
                              Suc (Suc (next_list h)) := []),
            next_list := Suc (Suc (Suc (next_list h)))\<rparr> \<and>
     C = \<lparr>argcount = 0, posonlyargcount = 0, kwonlyargcount = 0, first_lineno = 1,
          name = ''<module>'', filename = ''<string>'', docstring = DocUnset,
          cellvars = next_list h, freevars = Suc (next_list h), flags = 0,
          argnames = Suc (Suc (next_list h)), entries = entries b\<rparr>"
proof -
  obtain ys r where it: "Bytecode_iter (entries b) = (ys, r)"
    by (cases "Bytecode_iter (entries b)")
  have chk: "check_instrs ys = Inr ()"
    using check_instrs_yielded [of "entries b"] by (simp add: it)
  show ?thesis
  proof (cases r)
    case None
    with it have ys: "ys = entries b" by (simp add: Bytecode_iter_None)
    show ?thesis
      using chk None ys it
      by (simp add: Bytecode_init_def alloc_list_def py_iter_def extend_items_def) blast
  next
    case (Some e)
    then show ?thesis
      using chk it
      by (simp add: Bytecode_init_def alloc_list_def py_iter_def extend_items_def)
  qed
qed

lemma Bytecode_init_defaults:
  assumes "Bytecode_init h seq = Inr (h2, C)"
  shows "instrs h2 = instrs h \<and> argcount C = 0 \<and> posonlyargcount C = 0 \<and>
      kwonlyargcount C = 0 \<and> first_lineno C = 1 \<and> name C = ''<module>'' \<and>
      filename C = ''<string>'' \<and> docstring C = DocUnset \<and> flags C = 0 \<and>
      lists h2 (cellvars C) = [] \<and> lists h2 (freevars C) = [] \<and> lists h2 (argnames C) = []"
proof (cases seq)
  case (PyBytecode b)
  with assms show ?thesis by (simp add: Bytecode_init_Bytecode_Inr)
next
  case (PyIterable es)
  with assms show ?thesis by (simp add: Bytecode_init_Inr)
next
  case PyNotIterable
  with assms show ?thesis by (simp add: Bytecode_init_def alloc_list_def py_iter_def)
qed

text \<open>
  Claim C8, as amended. The constructor's own check is the check of the type of every item.
  For an argument that is a plain sequence (a list, a tuple) it raises exactly when an
  element is none of the five entry variants, with the ValueError that names the type of
  the first such element; every other plain sequence is accepted and held as it is,
  whether or not it opens a region inside another: that nesting is found only at a later
  traversal. When the argument is itself a \<^verbatim>\<open>Bytecode\<close>, the loop of the constructor
  iterates it with its validating iteration, and the constructor raises exactly when that
  iteration raises, for a malformed entry or for a nested region. In both cases a sequence
  with an element that is none of the five variants makes the constructor raise. A
  container that the constructor returns has the default metadata.
\<close>

theorem Bytecode_init_validation:
  "(Bytecode_init h (PyIterable es) = Inl e \<longleftrightarrow>
      (\<exists>xs n ys. es = xs @ Foreign n # ys \<and> (\<forall>m. Foreign m \<notin> set xs) \<and> e = ValueError n)) \<and>
   ((\<exists>r. Bytecode_init h (PyIterable es) = Inr r) \<longleftrightarrow> (\<forall>n. Foreign n \<notin> set es)) \<and>
   (Bytecode_init h (PyBytecode b) = Inl e \<longleftrightarrow> snd (Bytecode_iter (entries b)) = Some e) \<and>
   ((\<exists>r. Bytecode_init h (PyBytecode b) = Inr r) \<longleftrightarrow> snd (Bytecode_iter (entries b)) = None) \<and>
   (Foreign n \<in> set (entries b) \<longrightarrow> isl (Bytecode_init h (PyBytecode b))) \<and>
   Bytecode_init h PyNotIterable = Inl TypeError \<and>
   (\<forall>h2 C. Bytecode_init h (PyIterable es) = Inr (h2, C) \<longrightarrow> entries C = es) \<and>
   (\<forall>h2 C. Bytecode_init h (PyBytecode b) = Inr (h2, C) \<longrightarrow> entries C = entries b) \<and>
   (\<forall>h2 C. Bytecode_init h seq = Inr (h2, C) \<longrightarrow>
      instrs h2 = instrs h \<and> argcount C = 0 \<and> posonlyargcount C = 0 \<and>
      kwonlyargcount C = 0 \<and> first_lineno C = 1 \<and> name C = ''<module>'' \<and>
      filename C = ''<string>'' \<and> docstring C = DocUnset \<and> flags C = 0 \<and>
      lists h2 (cellvars C) = [] \<and> lists h2 (freevars C) = [] \<and> lists h2 (argnames C) = [])"
proof (intro conjI)
  show "Bytecode_init h (PyIterable es) = Inl e \<longleftrightarrow>
      (\<exists>xs n ys. es = xs @ Foreign n # ys \<and> (\<forall>m. Foreign m \<notin> set xs) \<and> e = ValueError n)"
    by (simp only: Bytecode_init_Inl check_instrs_Inl)
  show "(\<exists>r. Bytecode_init h (PyIterable es) = Inr r) \<longleftrightarrow> (\<forall>n. Foreign n \<notin> set es)"
  proof
    assume "\<exists>r. Bytecode_init h (PyIterable es) = Inr r"
    then obtain r where "Bytecode_init h (PyIterable es) = Inr r" ..
    then have "Bytecode_init h (PyIterable es) = Inr (fst r, snd r)" by simp
    then show "\<forall>n. Foreign n \<notin> set es" by (simp only: Bytecode_init_Inr) simp
  next
    assume "\<forall>n. Foreign n \<notin> set es"
    then show "\<exists>r. Bytecode_init h (PyIterable es) = Inr r"
      by (simp add: Bytecode_init_Inr)
  qed
  show "Bytecode_init h (PyBytecode b) = Inl e \<longleftrightarrow> snd (Bytecode_iter (entries b)) = Some e"
    by (rule Bytecode_init_Bytecode_Inl)
  show bc: "(\<exists>r. Bytecode_init h (PyBytecode b) = Inr r) \<longleftrightarrow>
      snd (Bytecode_iter (entries b)) = None"
  proof
    assume "\<exists>r. Bytecode_init h (PyBytecode b) = Inr r"
    then obtain r where "Bytecode_init h (PyBytecode b) = Inr r" ..
    then have "Bytecode_init h (PyBytecode b) = Inr (fst r, snd r)" by simp
    then show "snd (Bytecode_iter (entries b)) = None"
      by (simp only: Bytecode_init_Bytecode_Inr)
  next
    assume "snd (Bytecode_iter (entries b)) = None"
    then show "\<exists>r. Bytecode_init h (PyBytecode b) = Inr r"
      by (simp add: Bytecode_init_Bytecode_Inr)
  qed
  show "Foreign n \<in> set (entries b) \<longrightarrow> isl (Bytecode_init h (PyBytecode b))"
  proof
    assume "Foreign n \<in> set (entries b)"
    then have "snd (Bytecode_iter (entries b)) \<noteq> None" by (rule Foreign_raises)
    with bc have "\<not> (\<exists>r. Bytecode_init h (PyBytecode b) = Inr r)" by simp
    then show "isl (Bytecode_init h (PyBytecode b))"
      by (cases "Bytecode_init h (PyBytecode b)") simp_all
  qed
  show "Bytecode_init h PyNotIterable = Inl TypeError"
    by (simp add: Bytecode_init_def alloc_list_def py_iter_def)
  show "\<forall>h2 C. Bytecode_init h (PyIterable es) = Inr (h2, C) \<longrightarrow> entries C = es"
    by (simp add: Bytecode_init_Inr)
  show "\<forall>h2 C. Bytecode_init h (PyBytecode b) = Inr (h2, C) \<longrightarrow> entries C = entries b"
    by (simp add: Bytecode_init_Bytecode_Inr)
  show "\<forall>h2 C. Bytecode_init h seq = Inr (h2, C) \<longrightarrow>
      instrs h2 = instrs h \<and> argcount C = 0 \<and> posonlyargcount C = 0 \<and>
      kwonlyargcount C = 0 \<and> first_lineno C = 1 \<and> name C = ''<module>'' \<and>
      filename C = ''<string>'' \<and> docstring C = DocUnset \<and> flags C = 0 \<and>
      lists h2 (cellvars C) = [] \<and> lists h2 (freevars C) = [] \<and> lists h2 (argnames C) = []"
    by (intro allI impI) (rule Bytecode_init_defaults)
qed

theorem Bytecode_init_validation_witness:
  "Bytecode_init heap0 (PyIterable [TryBegin 0, Foreign ''int'', TryBegin 1]) =
     Inl (ValueError ''int'') \<and>
   \<not> isl (Bytecode_init heap0 (PyIterable [TryBegin 0, TryBegin 1])) \<and>
   entries (snd (projr (Bytecode_init heap0 (PyIterable [TryBegin 0, TryBegin 1])))) =
     [TryBegin 0, TryBegin 1] \<and>
   Bytecode_init heap0 (PyBytecode (bytecode0 [TryBegin 0, TryBegin 1])) = Inl RuntimeError \<and>
   isl (Bytecode_init heap0 (PyBytecode (bytecode0 [Foreign ''int''])))"
proof -
  let ?bad = "[TryBegin 0, Foreign ''int'', TryBegin 1]"
  let ?nested = "[TryBegin 0, TryBegin 1]"
  note bad_thm = Bytecode_init_validation
    [of heap0 ?bad "ValueError ''int''" "bytecode0 [Foreign ''int'']" "''int''"]
  note nested_thm = Bytecode_init_validation
    [of heap0 ?nested RuntimeError "bytecode0 ?nested" "''int''" "PyIterable ?nested"]
  have "?bad = [TryBegin 0] @ Foreign ''int'' # [TryBegin 1] \<and>
        (\<forall>m. Foreign m \<notin> set [TryBegin 0]) \<and> ValueError ''int'' = ValueError ''int''"
    by simp
  then have "\<exists>xs n ys. ?bad = xs @ Foreign n # ys \<and> (\<forall>m. Foreign m \<notin> set xs) \<and>
      ValueError ''int'' = ValueError n"
    by (intro exI)
  with bad_thm [THEN conjunct1]
  have bad: "Bytecode_init heap0 (PyIterable ?bad) = Inl (ValueError ''int'')" by (rule iffD2)
  have "\<forall>n. Foreign n \<notin> set ?nested" by simp
  with nested_thm [THEN conjunct2, THEN conjunct1]
  have "\<exists>r. Bytecode_init heap0 (PyIterable ?nested) = Inr r" by (rule iffD2)
  then obtain r where r: "Bytecode_init heap0 (PyIterable ?nested) = Inr r" ..
  then have r': "Bytecode_init heap0 (PyIterable ?nested) = Inr (fst r, snd r)" by simp
  from nested_thm [THEN conjunct2, THEN conjunct2, THEN conjunct2, THEN conjunct2,
      THEN conjunct2, THEN conjunct2, THEN conjunct1, rule_format, OF r']
  have ent: "entries (snd r) = ?nested" .
  have "snd (Bytecode_iter (entries (bytecode0 ?nested))) = Some RuntimeError"
    by (simp add: Bytecode_iter_def)
  with nested_thm [THEN conjunct2, THEN conjunct2, THEN conjunct1]
  have nb: "Bytecode_init heap0 (PyBytecode (bytecode0 ?nested)) = Inl RuntimeError"
    by (rule iffD2)
  have "Foreign ''int'' \<in> set (entries (bytecode0 [Foreign ''int'']))" by simp
  with bad_thm [THEN conjunct2, THEN conjunct2, THEN conjunct2, THEN conjunct2, THEN conjunct1]
  have fb: "isl (Bytecode_init heap0 (PyBytecode (bytecode0 [Foreign ''int''])))" by (rule mp)
  from bad r ent nb fb show ?thesis by simp
qed

text \<open>
  Claim C8, as stated, fails: the constructor accepts the list [Begin, Begin], which opens
  a second region before the first is closed; the exception is raised only when the
  container is iterated.
\<close>

theorem Bytecode_init_accepts_nesting:
  "\<not> isl (Bytecode_init heap0 (PyIterable [TryBegin 0, TryBegin 1])) \<and>
   snd (Bytecode_iter [TryBegin 0, TryBegin 1]) = Some RuntimeError"
  by (simp add: Bytecode_init_def alloc_list_def py_iter_def list_iter_def extend_items_def
      Bytecode_iter_def)

text \<open>What \<^verbatim>\<open>copy\<close> returns: three lists for the constructor, two for the copies.\<close>

lemma copy_Inr:
  "copy h C = Inr (h2, C2) \<longleftrightarrow>
     (\<forall>n. Foreign n \<notin> set (entries C)) \<and>
     h2 = h\<lparr>lists := (lists h)
              (next_list h := [], Suc (next_list h) := [], Suc (Suc (next_list h)) := [],
               Suc (Suc (Suc (next_list h))) :=
                 ((lists h)(next_list h := [], Suc (next_list h) := [],
                    Suc (Suc (next_list h)) := [])) (cellvars C),
               Suc (Suc (Suc (Suc (next_list h)))) :=
                 ((lists h)(next_list h := [], Suc (next_list h) := [],
                    Suc (Suc (next_list h)) := [],
                    Suc (Suc (Suc (next_list h))) :=
                      ((lists h)(next_list h := [], Suc (next_list h) := [],
                         Suc (Suc (next_list h)) := [])) (cellvars C))) (freevars C)),
            next_list := Suc (Suc (Suc (Suc (Suc (next_list h)))))\<rparr> \<and>
     C2 = \<lparr>argcount = argcount C, posonlyargcount = posonlyargcount C,
           kwonlyargcount = kwonlyargcount C, first_lineno = first_lineno C,
           name = name C, filename = filename C, docstring = docstring C,
           cellvars = Suc (Suc (Suc (next_list h))),
           freevars = Suc (Suc (Suc (Suc (next_list h)))), flags = flags C,
           argnames = argnames C, entries = entries C\<rparr>"
proof (cases "Bytecode_init h (PyIterable (entries C))")
  case (Inl e)
  then have "\<not> (\<forall>n. Foreign n \<notin> set (entries C))"
    using check_instrs_Inr [of "entries C" "()"] by (simp add: Bytecode_init_Inl)
  with Inl show ?thesis by (simp add: copy_def)
next
  case (Inr r)
  then have i: "Bytecode_init h (PyIterable (entries C)) = Inr (fst r, snd r)" by simp
  show ?thesis
    using i [unfolded Bytecode_init_Inr]
    by (auto simp: copy_def i Bytecode_copy_attr_from_def BaseBytecode_copy_attr_from_def
        alloc_list_def)
qed

text \<open>The state of the copy, for a container whose list attributes exist in the heap.\<close>

lemma copy_state:
  assumes "copy h C = Inr (h2, C2)"
    and "cellvars C < next_list h" and "freevars C < next_list h"
  shows "entries C2 = entries C \<and>
         Bytecode_eq h2 C (PyBytecode C2) =
           (case flat Bytecode_iter h (entries C) of Inl e \<Rightarrow> Inl e | Inr out \<Rightarrow> Inr True) \<and>
         instrs h2 = instrs h \<and>
         argcount C2 = argcount C \<and> posonlyargcount C2 = posonlyargcount C \<and>
         kwonlyargcount C2 = kwonlyargcount C \<and> flags C2 = flags C \<and>
         first_lineno C2 = first_lineno C \<and> name C2 = name C \<and> filename C2 = filename C \<and>
         docstring C2 = docstring C \<and>
         lists h2 (cellvars C2) = lists h (cellvars C) \<and>
         lists h2 (freevars C2) = lists h (freevars C) \<and>
         next_list h \<le> cellvars C2 \<and> next_list h \<le> freevars C2 \<and>
         cellvars C2 \<noteq> freevars C2 \<and>
         (\<forall>r<next_list h. lists h2 r = lists h r \<and>
            lists (list_append h2 (cellvars C2) v) r = lists h r \<and>
            lists (list_append h2 (freevars C2) v) r = lists h r)"
proof -
  note c = assms(1) [unfolded copy_Inr]
  from c have e: "entries C2 = entries C" and i: "instrs h2 = instrs h" by simp_all
  have eq: "Bytecode_eq h2 C (PyBytecode C2) =
      (case flat Bytecode_iter h (entries C) of Inl e \<Rightarrow> Inl e | Inr out \<Rightarrow> Inr True)"
    by (simp add: Bytecode_eq_same_entries [OF e] flat_instrs_cong [OF i])
  show ?thesis
  proof (intro conjI allI impI)
    show "Bytecode_eq h2 C (PyBytecode C2) =
      (case flat Bytecode_iter h (entries C) of Inl e \<Rightarrow> Inl e | Inr out \<Rightarrow> Inr True)"
      by (rule eq)
  qed (use c assms(2,3) in \<open>simp_all add: list_append_def\<close>)
qed

lemma copy_object_Inr:
  "copy_object s c = Inr (s2, c2) \<longleftrightarrow>
     (\<exists>h2 new. copy (oh_heap s) (containers s c) = Inr (h2, new) \<and>
        s2 = s\<lparr>oh_heap := h2, containers := (containers s)(next_container s := new),
               next_container := Suc (next_container s)\<rparr> \<and>
        c2 = next_container s)"
  by (cases "copy (oh_heap s) (containers s c)") (auto simp: copy_object_def)

text \<open>
  Claim C7, as amended. Let \<^verbatim>\<open>c2 = c.copy()\<close> return, for a container \<open>c\<close> that exists and
  whose list attributes exist. Then \<open>c2\<close> is a new object, another than \<open>c\<close>, and \<open>c\<close> is as
  it was; the copy has its own entry sequence: whatever sequence a mutation of the entries
  of \<open>c2\<close> leaves there, \<open>c\<close> is as it was. The entries of \<open>c2\<close> are the entries of \<open>c\<close>, the
  same objects in the same order, and no instruction object has changed; \<^verbatim>\<open>c == c2\<close>
  returns true whenever the normalizer succeeds on \<open>c\<close> and raises its exception otherwise;
  the argument counts, flags, first line, name, file name and docstring are equal; the
  cell-variable and free-variable lists of \<open>c2\<close> are two new list objects with the contents
  of those of \<open>c\<close>, so that appending to either leaves every list that existed before the
  copy as it was. The copy is shallow: the instruction objects are shared by \<open>c\<close> and
  \<open>c2\<close>.
\<close>

theorem copy_shares_instructions:
  assumes "copy_object s c = Inr (s2, c2)" and "c < next_container s"
    and "cellvars (containers s c) < next_list (oh_heap s)"
    and "freevars (containers s c) < next_list (oh_heap s)"
  shows "c2 \<noteq> c \<and> containers s2 c = containers s c \<and>
         (\<forall>es. containers (set_entries s2 c2 es) c = containers s c \<and>
               entries (containers (set_entries s2 c2 es) c2) = es) \<and>
         entries (containers s2 c2) = entries (containers s c) \<and>
         Bytecode_eq (oh_heap s2) (containers s2 c) (PyBytecode (containers s2 c2)) =
           (case flat Bytecode_iter (oh_heap s) (entries (containers s c)) of
              Inl e \<Rightarrow> Inl e | Inr out \<Rightarrow> Inr True) \<and>
         instrs (oh_heap s2) = instrs (oh_heap s) \<and>
         argcount (containers s2 c2) = argcount (containers s c) \<and>
         posonlyargcount (containers s2 c2) = posonlyargcount (containers s c) \<and>
         kwonlyargcount (containers s2 c2) = kwonlyargcount (containers s c) \<and>
         flags (containers s2 c2) = flags (containers s c) \<and>
         first_lineno (containers s2 c2) = first_lineno (containers s c) \<and>
         name (containers s2 c2) = name (containers s c) \<and>
         filename (containers s2 c2) = filename (containers s c) \<and>
         docstring (containers s2 c2) = docstring (containers s c) \<and>
         lists (oh_heap s2) (cellvars (containers s2 c2)) =
           lists (oh_heap s) (cellvars (containers s c)) \<and>
         lists (oh_heap s2) (freevars (containers s2 c2)) =
           lists (oh_heap s) (freevars (containers s c)) \<and>
         next_list (oh_heap s) \<le> cellvars (containers s2 c2) \<and>
         next_list (oh_heap s) \<le> freevars (containers s2 c2) \<and>
         cellvars (containers s2 c2) \<noteq> freevars (containers s2 c2) \<and>
         (\<forall>r<next_list (oh_heap s). lists (oh_heap s2) r = lists (oh_heap s) r \<and>
            lists (list_append (oh_heap s2) (cellvars (containers s2 c2)) v) r =
              lists (oh_heap s) r \<and>
            lists (list_append (oh_heap s2) (freevars (containers s2 c2)) v) r =
              lists (oh_heap s) r)"
proof -
  from assms(1) obtain h2 new where cp: "copy (oh_heap s) (containers s c) = Inr (h2, new)"
    and s2: "s2 = s\<lparr>oh_heap := h2, containers := (containers s)(next_container s := new),
               next_container := Suc (next_container s)\<rparr>"
    and c2: "c2 = next_container s"
    unfolding copy_object_Inr by blast
  from assms(2) c2 have ne: "c2 \<noteq> c" by simp
  have h2: "oh_heap s2 = h2" and new: "containers s2 c2 = new"
    and old: "containers s2 c = containers s c"
    using ne by (simp_all add: s2 c2)
  have mut: "containers (set_entries s2 c2 es) c = containers s c \<and>
      entries (containers (set_entries s2 c2 es) c2) = es" for es
    using ne old by (simp add: set_entries_def)
  note st = copy_state [OF cp assms(3,4), of v]
  show ?thesis
    unfolding h2 new old using ne mut st by blast
qed

theorem copy_shares_instructions_witness:
  "\<not> isl (copy_object
       \<lparr>oh_heap = heap0, containers = (\<lambda>a. bytecode0 [Label 7, Instr 3, Instr 0]),
        next_container = 1\<rparr> 0) \<and>
   (0::nat) < next_container
       \<lparr>oh_heap = heap0, containers = (\<lambda>a. bytecode0 [Label 7, Instr 3, Instr 0]),
        next_container = 1\<rparr> \<and>
   snd (projr (copy_object
       \<lparr>oh_heap = heap0, containers = (\<lambda>a. bytecode0 [Label 7, Instr 3, Instr 0]),
        next_container = 1\<rparr> 0)) \<noteq> 0 \<and>
   containers
     (set_entries
        (fst (projr (copy_object
           \<lparr>oh_heap = heap0, containers = (\<lambda>a. bytecode0 [Label 7, Instr 3, Instr 0]),
            next_container = 1\<rparr> 0)))
        (snd (projr (copy_object
           \<lparr>oh_heap = heap0, containers = (\<lambda>a. bytecode0 [Label 7, Instr 3, Instr 0]),
            next_container = 1\<rparr> 0)))
        []) 0 = bytecode0 [Label 7, Instr 3, Instr 0] \<and>
   Bytecode_eq
     (oh_heap (fst (projr (copy_object
        \<lparr>oh_heap = heap0, containers = (\<lambda>a. bytecode0 [Label 7, Instr 3, Instr 0]),
         next_container = 1\<rparr> 0))))
     (bytecode0 [Label 7, Instr 3, Instr 0])
     (PyBytecode (containers
        (fst (projr (copy_object
           \<lparr>oh_heap = heap0, containers = (\<lambda>a. bytecode0 [Label 7, Instr 3, Instr 0]),
            next_container = 1\<rparr> 0)))
        (snd (projr (copy_object
           \<lparr>oh_heap = heap0, containers = (\<lambda>a. bytecode0 [Label 7, Instr 3, Instr 0]),
            next_container = 1\<rparr> 0))))) = Inr True"
proof -
  let ?C = "bytecode0 [Label 7, Instr 3, Instr 0]"
  let ?s = "\<lparr>oh_heap = heap0, containers = (\<lambda>a. ?C), next_container = 1\<rparr>"
  let ?r = "copy_object ?s 0"
  have ok: "\<not> isl ?r"
    by (simp add: copy_object_def copy_def Bytecode_init_def alloc_list_def py_iter_def
        list_iter_def extend_items_def Bytecode_copy_attr_from_def
        BaseBytecode_copy_attr_from_def)
  then have c: "?r = Inr (fst (projr ?r), snd (projr ?r))"
    by (cases ?r) simp_all
  have k: "(0::nat) < next_container ?s" by simp
  have a: "cellvars (containers ?s 0) < next_list (oh_heap ?s)"
    and b: "freevars (containers ?s 0) < next_list (oh_heap ?s)" by simp_all
  have f: "flat Bytecode_iter heap0 [Label 7, Instr 3, Instr 0] =
      Inr [Placeholder 0, ConcreteInstr ''JUMP'' 0 None, InstrObject (fresh_instr ''A'')]"
    by (simp add: flat_def Bytecode_iter_def)
  note T = copy_shares_instructions [OF c k a b, of "''x''"]
  from T [THEN conjunct1] have ne: "snd (projr ?r) \<noteq> 0" .
  from T [THEN conjunct2, THEN conjunct1]
  have old: "containers (fst (projr ?r)) 0 = ?C" by simp
  from T [THEN conjunct2, THEN conjunct2, THEN conjunct1, rule_format, of "[]"]
  have mut: "containers (set_entries (fst (projr ?r)) (snd (projr ?r)) []) 0 = ?C" by simp
  from T [THEN conjunct2, THEN conjunct2, THEN conjunct2, THEN conjunct2, THEN conjunct1]
  have "Bytecode_eq (oh_heap (fst (projr ?r))) (containers (fst (projr ?r)) 0)
      (PyBytecode (containers (fst (projr ?r)) (snd (projr ?r)))) = Inr True"
    by (simp add: f)
  then have q: "Bytecode_eq (oh_heap (fst (projr ?r))) ?C
      (PyBytecode (containers (fst (projr ?r)) (snd (projr ?r)))) = Inr True"
    by (simp only: old)
  from ok k ne mut q show ?thesis by blast
qed

text \<open>
  Claim C7, as stated, fails: after \<^verbatim>\<open>c2 = c.copy()\<close> and \<^verbatim>\<open>c2[0].lineno = 7\<close> the
  instruction that \<open>c\<close> holds, whose line was unset, has the line 7: the copy holds the
  same \<^verbatim>\<open>Instr\<close> object.
\<close>

theorem copy_instr_shared:
  "\<not> isl (copy_then_assign_lineno heap0 (bytecode0 [Instr 0]) 0 (Line 7)) \<and>
   instr_objects heap0 (entries (bytecode0 [Instr 0])) = [fresh_instr ''A''] \<and>
   instr_objects (projr (copy_then_assign_lineno heap0 (bytecode0 [Instr 0]) 0 (Line 7)))
     (entries (bytecode0 [Instr 0])) = [(fresh_instr ''A'')\<lparr>instr_lineno := Line 7\<rparr>]"
  by (simp add: copy_then_assign_lineno_def copy_def Bytecode_init_def alloc_list_def
      py_iter_def list_iter_def extend_items_def
      Bytecode_copy_attr_from_def BaseBytecode_copy_attr_from_def assign_lineno_def)

text \<open>
  The attribute \<^verbatim>\<open>argnames\<close> is assigned by \<^verbatim>\<open>Bytecode._copy_attr_from\<close> without
  \<^verbatim>\<open>list(...)\<close>: after \<^verbatim>\<open>c2 = c.copy()\<close> and \<^verbatim>\<open>c2.argnames.append('x')\<close> the list
  \<^verbatim>\<open>c.argnames\<close>, empty before, holds \<^verbatim>\<open>'x'\<close>.
\<close>

lemma copy_argnames_shared:
  "\<not> isl (copy_then_append_argnames heap0 (bytecode0 []) ''x'') \<and>
   lists heap0 (argnames (bytecode0 [])) = [] \<and>
   lists (projr (copy_then_append_argnames heap0 (bytecode0 []) ''x'')) (argnames (bytecode0 []))
     = [''x'']"
  by (simp add: copy_then_append_argnames_def copy_def Bytecode_init_def alloc_list_def
      py_iter_def list_iter_def extend_items_def
      Bytecode_copy_attr_from_def BaseBytecode_copy_attr_from_def list_append_def)

end
